theory Spec2Isabelle
  imports Complex_Main
begin

section \<open>JavaScript numbers\<close>

text \<open>
  Every numeric field of the action is a JavaScript \<^verbatim>\<open>number\<close>. The model keeps the two kinds
  of value the code can produce from report files: \<open>NaN\<close> (what \<^verbatim>\<open>Number.parseInt\<close> returns for
  a string without leading digits) and finite values, held as exact rationals. Binary rounding
  of doubles, the infinities and the sign of zero are outside the model; every division of the
  source is guarded by a \<^verbatim>\<open>> 0\<close> test, so no division by zero is ever evaluated.
\<close>

datatype jsnum = NaN | Num rat

fun jadd :: "jsnum \<Rightarrow> jsnum \<Rightarrow> jsnum" where
  "jadd (Num a) (Num b) = Num (a + b)"
| "jadd _ _ = NaN"

fun jsub :: "jsnum \<Rightarrow> jsnum \<Rightarrow> jsnum" where
  "jsub (Num a) (Num b) = Num (a - b)"
| "jsub _ _ = NaN"

fun jmul :: "jsnum \<Rightarrow> jsnum \<Rightarrow> jsnum" where
  "jmul (Num a) (Num b) = Num (a * b)"
| "jmul _ _ = NaN"

text \<open>\<^verbatim>\<open>a / b\<close>; the quotient by zero (an infinity or \<open>NaN\<close> in JavaScript) is never reached.\<close>

fun jdiv :: "jsnum \<Rightarrow> jsnum \<Rightarrow> jsnum" where
  "jdiv (Num a) (Num b) = (if b = 0 then NaN else Num (a / b))"
| "jdiv _ _ = NaN"

fun jneg :: "jsnum \<Rightarrow> jsnum" where
  "jneg (Num a) = Num (- a)"
| "jneg NaN = NaN"

text \<open>\<^verbatim>\<open>a > b\<close>: false as soon as one side is \<open>NaN\<close>.\<close>

fun jgt :: "jsnum \<Rightarrow> jsnum \<Rightarrow> bool" where
  "jgt (Num a) (Num b) = (a > b)"
| "jgt _ _ = False"

text \<open>\<^verbatim>\<open>a === b\<close> on numbers: \<open>NaN\<close> is not equal to itself.\<close>

fun jeq :: "jsnum \<Rightarrow> jsnum \<Rightarrow> bool" where
  "jeq (Num a) (Num b) = (a = b)"
| "jeq _ _ = False"

text \<open>Truthiness of a number: \<open>0\<close> and \<open>NaN\<close> are falsy.\<close>

fun truthy_num :: "jsnum \<Rightarrow> bool" where
  "truthy_num (Num a) = (a \<noteq> 0)"
| "truthy_num NaN = False"

text \<open>
  \<^verbatim>\<open>x.toFixed(2)\<close> on a finite value: the sign is split off, then the integer \<open>n\<close> with
  \<open>n / 100\<close> closest to the magnitude is taken, the larger one on a tie. (From \<open>10\<^sup>2\<^sup>1\<close> on
  \<^verbatim>\<open>toFixed\<close> prints the number as it is; doubles of that size are integers, which the rounding
  leaves as they are.)
\<close>

definition toFixed2 :: "rat \<Rightarrow> rat" where
  "toFixed2 x =
     (if x < 0 then - (of_int \<lfloor>(- x) * 100 + 1 / 2\<rfloor> / 100)
      else of_int \<lfloor>x * 100 + 1 / 2\<rfloor> / 100)"

text \<open>\<^verbatim>\<open>Number.parseFloat(x.toFixed(2))\<close>: \<^verbatim>\<open>NaN.toFixed(2)\<close> is the string "NaN".\<close>

fun round2 :: "jsnum \<Rightarrow> jsnum" where
  "round2 (Num a) = Num (toFixed2 a)"
| "round2 NaN = NaN"

primrec jsum :: "jsnum list \<Rightarrow> jsnum" where
  "jsum [] = Num 0"
| "jsum (x # xs) = jadd x (jsum xs)"

subsection \<open>Number.parseInt(s, 10)\<close>






section \<open>Coverage data model\<close>

text \<open>
  The interfaces of \<^verbatim>\<open>types/coverage.ts\<close>. Field names carry a prefix naming their interface
  (\<open>lc_\<close> LineCoverage, \<open>fc_\<close> FileCoverage, \<open>cm_\<close> CoverageMetrics, \<open>cr_\<close> CoverageResults,
  \<open>agg_\<close> AggregatedCoverageResults, \<open>fcmp_\<close> FileComparison, \<open>cmp_\<close> CoverageComparison),
  since several interfaces share field names. An optional field is an \<open>option\<close>.
\<close>

record LineCoverage =
  lc_lineNumber :: jsnum
  lc_count :: jsnum
  lc_type :: string
  lc_trueCount :: "jsnum option"
  lc_falseCount :: "jsnum option"

record FileCoverage =
  fc_name :: string
  fc_path :: string
  fc_statements :: jsnum
  fc_coveredStatements :: jsnum
  fc_conditionals :: jsnum
  fc_coveredConditionals :: jsnum
  fc_methods :: jsnum
  fc_coveredMethods :: jsnum
  fc_lineRate :: jsnum
  fc_branchRate :: jsnum
  fc_lines :: "LineCoverage list"
  fc_missingLines :: "jsnum list option"
  fc_partialLines :: "jsnum list option"
  fc_patchCoverage :: "jsnum option"

record CoverageMetrics =
  cm_statements :: jsnum
  cm_coveredStatements :: jsnum
  cm_conditionals :: jsnum
  cm_coveredConditionals :: jsnum
  cm_methods :: jsnum
  cm_coveredMethods :: jsnum
  cm_elements :: jsnum
  cm_coveredElements :: jsnum
  cm_lineRate :: jsnum
  cm_branchRate :: jsnum

record CoverageResults =
  cr_timestamp :: jsnum
  cr_metrics :: CoverageMetrics
  cr_files :: "FileCoverage list"

record FileComparison =
  fcmp_name :: string
  fcmp_path :: string
  fcmp_baseLineRate :: jsnum
  fcmp_currentLineRate :: jsnum
  fcmp_baseBranchRate :: jsnum
  fcmp_currentBranchRate :: jsnum
  fcmp_deltaLineRate :: jsnum
  fcmp_deltaBranchRate :: jsnum
  fcmp_deltaStatements :: jsnum
  fcmp_deltaCoveredStatements :: jsnum
  fcmp_deltaConditionals :: jsnum
  fcmp_deltaCoveredConditionals :: jsnum
  fcmp_missingLines :: jsnum
  fcmp_partialLines :: jsnum

record CoverageComparison =
  cmp_filesAdded :: "FileCoverage list"
  cmp_filesRemoved :: "FileCoverage list"
  cmp_filesChanged :: "FileComparison list"
  cmp_deltaLineRate :: jsnum
  cmp_deltaBranchRate :: jsnum
  cmp_deltaTotalStatements :: jsnum
  cmp_deltaCoveredStatements :: jsnum
  cmp_deltaTotalConditionals :: jsnum
  cmp_deltaCoveredConditionals :: jsnum
  cmp_deltaTotalMethods :: jsnum
  cmp_deltaCoveredMethods :: jsnum
  cmp_improvement :: bool
  cmp_deltaFiles :: jsnum
  cmp_deltaLines :: jsnum
  cmp_deltaBranches :: jsnum
  cmp_deltaHits :: jsnum
  cmp_deltaMisses :: jsnum
  cmp_deltaPartials :: jsnum
  cmp_baseBranch :: "string option"
  cmp_headCommit :: "string option"
  cmp_baseCommit :: "string option"
  cmp_baseFiles :: jsnum
  cmp_baseLines :: jsnum
  cmp_baseBranches :: jsnum
  cmp_baseHits :: jsnum
  cmp_baseMisses :: jsnum
  cmp_basePartials :: jsnum
  cmp_currentFiles :: jsnum
  cmp_currentLines :: jsnum
  cmp_currentBranches :: jsnum
  cmp_currentHits :: jsnum
  cmp_currentMisses :: jsnum
  cmp_currentPartials :: jsnum

record AggregatedCoverageResults =
  agg_totalStatements :: jsnum
  agg_coveredStatements :: jsnum
  agg_totalConditionals :: jsnum
  agg_coveredConditionals :: jsnum
  agg_totalMethods :: jsnum
  agg_coveredMethods :: jsnum
  agg_lineRate :: jsnum
  agg_branchRate :: jsnum
  agg_files :: "FileCoverage list"
  agg_comparison :: "CoverageComparison option"
  agg_flags :: "string list option"
  agg_name :: "string option"
  agg_totalHits :: "jsnum option"
  agg_totalMisses :: "jsnum option"
  agg_totalPartials :: "jsnum option"
  agg_totalBranches :: "jsnum option"
  agg_totalFiles :: "jsnum option"
  agg_totalLines :: "jsnum option"
  agg_patchCoverageRate :: "jsnum option"

text \<open>What a JavaScript exception carries: an \<^verbatim>\<open>Error\<close> with its message, or any other value.\<close>

datatype error = Error string | Thrown

section \<open>The Clover parser (parsers/coverage-parser.ts)\<close>








text \<open>The percentage of the source: \<^verbatim>\<open>total > 0 ? parseFloat(((covered / total) * 100).toFixed(2)) : 0\<close>.\<close>

definition rate :: "jsnum \<Rightarrow> jsnum \<Rightarrow> jsnum" where
  "rate covered tot =
     (if jgt tot (Num 0) then round2 (jmul (jdiv covered tot) (Num 100)) else Num 0)"







subsection \<open>Aggregation\<close>

text \<open>The mutable locals of \<^verbatim>\<open>aggregateResults\<close> and one turn of its loop.\<close>

record agg_acc =
  acc_totalStatements :: jsnum
  acc_coveredStatements :: jsnum
  acc_totalConditionals :: jsnum
  acc_coveredConditionals :: jsnum
  acc_totalMethods :: jsnum
  acc_coveredMethods :: jsnum
  acc_allFiles :: "FileCoverage list"

definition agg_init :: agg_acc where
  "agg_init = \<lparr> acc_totalStatements = Num 0, acc_coveredStatements = Num 0,
                acc_totalConditionals = Num 0, acc_coveredConditionals = Num 0,
                acc_totalMethods = Num 0, acc_coveredMethods = Num 0,
                acc_allFiles = [] \<rparr>"

definition agg_step :: "agg_acc \<Rightarrow> CoverageResults \<Rightarrow> agg_acc" where
  "agg_step acc result =
     \<lparr> acc_totalStatements = jadd (acc_totalStatements acc) (cm_statements (cr_metrics result)),
       acc_coveredStatements =
         jadd (acc_coveredStatements acc) (cm_coveredStatements (cr_metrics result)),
       acc_totalConditionals =
         jadd (acc_totalConditionals acc) (cm_conditionals (cr_metrics result)),
       acc_coveredConditionals =
         jadd (acc_coveredConditionals acc) (cm_coveredConditionals (cr_metrics result)),
       acc_totalMethods = jadd (acc_totalMethods acc) (cm_methods (cr_metrics result)),
       acc_coveredMethods = jadd (acc_coveredMethods acc) (cm_coveredMethods (cr_metrics result)),
       acc_allFiles = acc_allFiles acc @ cr_files result \<rparr>"

definition aggregateResults :: "CoverageResults list \<Rightarrow> AggregatedCoverageResults" where
  "aggregateResults results =
     (let acc = foldl agg_step agg_init results;
          lineRate = rate (acc_coveredStatements acc) (acc_totalStatements acc);
          branchRate = rate (acc_coveredConditionals acc) (acc_totalConditionals acc)
      in \<lparr> agg_totalStatements = acc_totalStatements acc,
           agg_coveredStatements = acc_coveredStatements acc,
           agg_totalConditionals = acc_totalConditionals acc,
           agg_coveredConditionals = acc_coveredConditionals acc,
           agg_totalMethods = acc_totalMethods acc,
           agg_coveredMethods = acc_coveredMethods acc,
           agg_lineRate = lineRate,
           agg_branchRate = branchRate,
           agg_files = acc_allFiles acc,
           agg_comparison = None,
           agg_flags = None,
           agg_name = None,
           agg_totalHits = None,
           agg_totalMisses = None,
           agg_totalPartials = None,
           agg_totalBranches = None,
           agg_totalFiles = None,
           agg_totalLines = None,
           agg_patchCoverageRate = None \<rparr>)"

section \<open>The comparator (utils/coverage-comparison.ts)\<close>

text \<open>
  A JavaScript \<^verbatim>\<open>Map\<close> keeps its entries in the order of first insertion; \<^verbatim>\<open>set\<close> on a key
  that is present replaces the value in place. It is modelled as an association list.
\<close>

fun Map_set :: "('k \<times> 'v) list \<Rightarrow> 'k \<Rightarrow> 'v \<Rightarrow> ('k \<times> 'v) list" where
  "Map_set [] k v = [(k, v)]"
| "Map_set ((k', v') # m) k v =
     (if k' = k then (k, v) # m else (k', v') # Map_set m k v)"

definition Map_get :: "('k \<times> 'v) list \<Rightarrow> 'k \<Rightarrow> 'v option" where
  "Map_get m k = map_of m k"

definition Map_has :: "('k \<times> 'v) list \<Rightarrow> 'k \<Rightarrow> bool" where
  "Map_has m k = (map_of m k \<noteq> None)"

text \<open>\<^verbatim>\<open>for (const file of results.files) fileMap.set(file.path, file)\<close>\<close>

definition buildFileMap :: "FileCoverage list \<Rightarrow> (string \<times> FileCoverage) list" where
  "buildFileMap files = foldl (\<lambda>m file. Map_set m (fc_path file) file) [] files"

record CompareOptions =
  co_baseBranch :: "string option"
  co_headCommit :: "string option"
  co_baseCommit :: "string option"

text \<open>\<^verbatim>\<open>xs?.length || 0\<close>\<close>

definition length_or_0 :: "'a list option \<Rightarrow> jsnum" where
  "length_or_0 xs = (case xs of None \<Rightarrow> Num 0 | Some l \<Rightarrow> Num (of_nat (length l)))"

text \<open>\<^verbatim>\<open>v || d\<close> on an optional number: undefined, \<open>0\<close> and \<open>NaN\<close> give \<open>d\<close>.\<close>

definition or_num :: "jsnum option \<Rightarrow> jsnum \<Rightarrow> jsnum" where
  "or_num v d = (case v of None \<Rightarrow> d | Some n \<Rightarrow> if truthy_num n then n else d)"

definition compareFiles :: "FileCoverage \<Rightarrow> FileCoverage \<Rightarrow> FileComparison" where
  "compareFiles baseFile currentFile =
     \<lparr> fcmp_name = fc_name currentFile,
       fcmp_path = fc_path currentFile,
       fcmp_baseLineRate = fc_lineRate baseFile,
       fcmp_currentLineRate = fc_lineRate currentFile,
       fcmp_baseBranchRate = fc_branchRate baseFile,
       fcmp_currentBranchRate = fc_branchRate currentFile,
       fcmp_deltaLineRate = round2 (jsub (fc_lineRate currentFile) (fc_lineRate baseFile)),
       fcmp_deltaBranchRate = round2 (jsub (fc_branchRate currentFile) (fc_branchRate baseFile)),
       fcmp_deltaStatements = jsub (fc_statements currentFile) (fc_statements baseFile),
       fcmp_deltaCoveredStatements =
         jsub (fc_coveredStatements currentFile) (fc_coveredStatements baseFile),
       fcmp_deltaConditionals = jsub (fc_conditionals currentFile) (fc_conditionals baseFile),
       fcmp_deltaCoveredConditionals =
         jsub (fc_coveredConditionals currentFile) (fc_coveredConditionals baseFile),
       fcmp_missingLines = length_or_0 (fc_missingLines currentFile),
       fcmp_partialLines = length_or_0 (fc_partialLines currentFile) \<rparr>"

text \<open>
  The first loop of \<^verbatim>\<open>compareResults\<close>, over the entries of the current map: the state is the
  pair of \<^verbatim>\<open>filesAdded\<close> and \<^verbatim>\<open>filesChanged\<close>. \<^verbatim>\<open>!== 0\<close> holds for \<open>NaN\<close>.
\<close>

definition added_changed_step ::
  "(string \<times> FileCoverage) list \<Rightarrow> FileCoverage list \<times> FileComparison list \<Rightarrow>
   string \<times> FileCoverage \<Rightarrow> FileCoverage list \<times> FileComparison list" where
  "added_changed_step baseFileMap st entry =
     (case Map_get baseFileMap (fst entry) of
        None \<Rightarrow> (fst st @ [snd entry], snd st)
      | Some baseFile \<Rightarrow>
          (let comparison = compareFiles baseFile (snd entry)
           in if fcmp_deltaLineRate comparison \<noteq> Num 0 \<or> fcmp_deltaBranchRate comparison \<noteq> Num 0
              then (fst st, snd st @ [comparison])
              else st))"

text \<open>The second loop, over the entries of the base map.\<close>

definition removed_step ::
  "(string \<times> FileCoverage) list \<Rightarrow> FileCoverage list \<Rightarrow> string \<times> FileCoverage \<Rightarrow>
   FileCoverage list" where
  "removed_step currentFileMap filesRemoved entry =
     (if \<not> Map_has currentFileMap (fst entry) then filesRemoved @ [snd entry] else filesRemoved)"

definition compareResults ::
  "AggregatedCoverageResults \<Rightarrow> AggregatedCoverageResults \<Rightarrow> CompareOptions option \<Rightarrow>
   CoverageComparison" where
  "compareResults baseResults currentResults options =
     (let baseFileMap = buildFileMap (agg_files baseResults);
          currentFileMap = buildFileMap (agg_files currentResults);
          ac = foldl (added_changed_step baseFileMap) ([], []) currentFileMap;
          filesAdded = fst ac;
          filesChanged = snd ac;
          filesRemoved = foldl (removed_step currentFileMap) [] baseFileMap;
          deltaLineRate = round2 (jsub (agg_lineRate currentResults) (agg_lineRate baseResults));
          deltaBranchRate =
            round2 (jsub (agg_branchRate currentResults) (agg_branchRate baseResults));
          currentFiles =
            or_num (agg_totalFiles currentResults) (Num (of_nat (length (agg_files currentResults))));
          baseFiles =
            or_num (agg_totalFiles baseResults) (Num (of_nat (length (agg_files baseResults))))
      in \<lparr> cmp_filesAdded = filesAdded,
           cmp_filesRemoved = filesRemoved,
           cmp_filesChanged = filesChanged,
           cmp_deltaLineRate = deltaLineRate,
           cmp_deltaBranchRate = deltaBranchRate,
           cmp_deltaTotalStatements =
             jsub (agg_totalStatements currentResults) (agg_totalStatements baseResults),
           cmp_deltaCoveredStatements =
             jsub (agg_coveredStatements currentResults) (agg_coveredStatements baseResults),
           cmp_deltaTotalConditionals =
             jsub (agg_totalConditionals currentResults) (agg_totalConditionals baseResults),
           cmp_deltaCoveredConditionals =
             jsub (agg_coveredConditionals currentResults) (agg_coveredConditionals baseResults),
           cmp_deltaTotalMethods =
             jsub (agg_totalMethods currentResults) (agg_totalMethods baseResults),
           cmp_deltaCoveredMethods =
             jsub (agg_coveredMethods currentResults) (agg_coveredMethods baseResults),
           cmp_improvement =
             (jgt deltaLineRate (Num 0) \<or> (jeq deltaLineRate (Num 0) \<and> jgt deltaBranchRate (Num 0))),
           cmp_deltaFiles = jsub currentFiles baseFiles,
           cmp_deltaLines =
             jsub (or_num (agg_totalLines currentResults) (Num 0))
                  (or_num (agg_totalLines baseResults) (Num 0)),
           cmp_deltaBranches =
             jsub (or_num (agg_totalBranches currentResults) (Num 0))
                  (or_num (agg_totalBranches baseResults) (Num 0)),
           cmp_deltaHits =
             jsub (or_num (agg_totalHits currentResults) (Num 0))
                  (or_num (agg_totalHits baseResults) (Num 0)),
           cmp_deltaMisses =
             jsub (or_num (agg_totalMisses currentResults) (Num 0))
                  (or_num (agg_totalMisses baseResults) (Num 0)),
           cmp_deltaPartials =
             jsub (or_num (agg_totalPartials currentResults) (Num 0))
                  (or_num (agg_totalPartials baseResults) (Num 0)),
           cmp_baseBranch = Option.bind options co_baseBranch,
           cmp_headCommit = Option.bind options co_headCommit,
           cmp_baseCommit = Option.bind options co_baseCommit,
           cmp_baseFiles = baseFiles,
           cmp_baseLines = or_num (agg_totalLines baseResults) (Num 0),
           cmp_baseBranches = or_num (agg_totalBranches baseResults) (Num 0),
           cmp_baseHits = or_num (agg_totalHits baseResults) (Num 0),
           cmp_baseMisses = or_num (agg_totalMisses baseResults) (Num 0),
           cmp_basePartials = or_num (agg_totalPartials baseResults) (Num 0),
           cmp_currentFiles = currentFiles,
           cmp_currentLines = or_num (agg_totalLines currentResults) (Num 0),
           cmp_currentBranches = or_num (agg_totalBranches currentResults) (Num 0),
           cmp_currentHits = or_num (agg_totalHits currentResults) (Num 0),
           cmp_currentMisses = or_num (agg_totalMisses currentResults) (Num 0),
           cmp_currentPartials = or_num (agg_totalPartials currentResults) (Num 0) \<rparr>)"

section \<open>JavaScript values and JSON\<close>

text \<open>
  The values that \<^verbatim>\<open>JSON.stringify\<close> meets in a results object. An object is the list of its
  own enumerable properties in their order.
\<close>

datatype jsval =
    JUndefined
  | JNull
  | JBool bool
  | JNumber jsnum
  | JString string
  | JArray "jsval list"
  | JObject "(string \<times> jsval) list"

text \<open>
  \<^verbatim>\<open>JSON.stringify(v, null, 2)\<close>, given as the value that the produced text denotes (the
  value \<^verbatim>\<open>JSON.parse\<close> reads back from it); the white space of the text is not modelled.
  \<open>None\<close> stands for the result \<^verbatim>\<open>undefined\<close>. A property whose value is undefined is left
  out, an undefined array element becomes \<^verbatim>\<open>null\<close>, and so does \<open>NaN\<close>.
\<close>

fun JSON_value :: "jsval \<Rightarrow> jsval option"
  and JSON_elements :: "jsval list \<Rightarrow> jsval list"
  and JSON_props :: "(string \<times> jsval) list \<Rightarrow> (string \<times> jsval) list" where
  "JSON_value JUndefined = None"
| "JSON_value JNull = Some JNull"
| "JSON_value (JBool b) = Some (JBool b)"
| "JSON_value (JNumber NaN) = Some JNull"
| "JSON_value (JNumber (Num q)) = Some (JNumber (Num q))"
| "JSON_value (JString s) = Some (JString s)"
| "JSON_value (JArray xs) = Some (JArray (JSON_elements xs))"
| "JSON_value (JObject ps) = Some (JObject (JSON_props ps))"
| "JSON_elements [] = []"
| "JSON_elements (x # xs) =
     (case JSON_value x of None \<Rightarrow> JNull | Some v \<Rightarrow> v) # JSON_elements xs"
| "JSON_props [] = []"
| "JSON_props (p # ps) =
     (case JSON_value (snd p) of
        None \<Rightarrow> JSON_props ps
      | Some v \<Rightarrow> (fst p, v) # JSON_props ps)"

text \<open>Reading a property of an object: \<open>None\<close> when the object has no such property.\<close>

definition prop_get :: "(string \<times> jsval) list \<Rightarrow> string \<Rightarrow> jsval option" where
  "prop_get ps k = map_of ps k"

text \<open>The rest object of \<^verbatim>\<open>const { comparison: _comparison, ...resultsToSave } = results\<close>.\<close>

definition omit_comparison :: "(string \<times> jsval) list \<Rightarrow> (string \<times> jsval) list" where
  "omit_comparison ps = filter (\<lambda>p. fst p \<noteq> ''comparison'') ps"

subsection \<open>The results objects behind the coverage interfaces\<close>

definition opt_val :: "('a \<Rightarrow> jsval) \<Rightarrow> 'a option \<Rightarrow> jsval" where
  "opt_val f v = (case v of None \<Rightarrow> JUndefined | Some x \<Rightarrow> f x)"

definition LineCoverage_obj :: "LineCoverage \<Rightarrow> jsval" where
  "LineCoverage_obj l = JObject
     [(''lineNumber'', JNumber (lc_lineNumber l)),
      (''count'', JNumber (lc_count l)),
      (''type'', JString (lc_type l)),
      (''trueCount'', opt_val JNumber (lc_trueCount l)),
      (''falseCount'', opt_val JNumber (lc_falseCount l))]"

definition FileCoverage_obj :: "FileCoverage \<Rightarrow> jsval" where
  "FileCoverage_obj f = JObject
     [(''name'', JString (fc_name f)),
      (''path'', JString (fc_path f)),
      (''statements'', JNumber (fc_statements f)),
      (''coveredStatements'', JNumber (fc_coveredStatements f)),
      (''conditionals'', JNumber (fc_conditionals f)),
      (''coveredConditionals'', JNumber (fc_coveredConditionals f)),
      (''methods'', JNumber (fc_methods f)),
      (''coveredMethods'', JNumber (fc_coveredMethods f)),
      (''lineRate'', JNumber (fc_lineRate f)),
      (''branchRate'', JNumber (fc_branchRate f)),
      (''lines'', JArray (map LineCoverage_obj (fc_lines f))),
      (''missingLines'', opt_val (\<lambda>xs. JArray (map JNumber xs)) (fc_missingLines f)),
      (''partialLines'', opt_val (\<lambda>xs. JArray (map JNumber xs)) (fc_partialLines f)),
      (''patchCoverage'', opt_val JNumber (fc_patchCoverage f))]"

definition FileComparison_obj :: "FileComparison \<Rightarrow> jsval" where
  "FileComparison_obj x = JObject
     [(''name'', JString (fcmp_name x)),
      (''path'', JString (fcmp_path x)),
      (''baseLineRate'', JNumber (fcmp_baseLineRate x)),
      (''currentLineRate'', JNumber (fcmp_currentLineRate x)),
      (''baseBranchRate'', JNumber (fcmp_baseBranchRate x)),
      (''currentBranchRate'', JNumber (fcmp_currentBranchRate x)),
      (''deltaLineRate'', JNumber (fcmp_deltaLineRate x)),
      (''deltaBranchRate'', JNumber (fcmp_deltaBranchRate x)),
      (''deltaStatements'', JNumber (fcmp_deltaStatements x)),
      (''deltaCoveredStatements'', JNumber (fcmp_deltaCoveredStatements x)),
      (''deltaConditionals'', JNumber (fcmp_deltaConditionals x)),
      (''deltaCoveredConditionals'', JNumber (fcmp_deltaCoveredConditionals x)),
      (''missingLines'', JNumber (fcmp_missingLines x)),
      (''partialLines'', JNumber (fcmp_partialLines x))]"

definition CoverageComparison_obj :: "CoverageComparison \<Rightarrow> jsval" where
  "CoverageComparison_obj c = JObject
     [(''filesAdded'', JArray (map FileCoverage_obj (cmp_filesAdded c))),
      (''filesRemoved'', JArray (map FileCoverage_obj (cmp_filesRemoved c))),
      (''filesChanged'', JArray (map FileComparison_obj (cmp_filesChanged c))),
      (''deltaLineRate'', JNumber (cmp_deltaLineRate c)),
      (''deltaBranchRate'', JNumber (cmp_deltaBranchRate c)),
      (''deltaTotalStatements'', JNumber (cmp_deltaTotalStatements c)),
      (''deltaCoveredStatements'', JNumber (cmp_deltaCoveredStatements c)),
      (''deltaTotalConditionals'', JNumber (cmp_deltaTotalConditionals c)),
      (''deltaCoveredConditionals'', JNumber (cmp_deltaCoveredConditionals c)),
      (''deltaTotalMethods'', JNumber (cmp_deltaTotalMethods c)),
      (''deltaCoveredMethods'', JNumber (cmp_deltaCoveredMethods c)),
      (''improvement'', JBool (cmp_improvement c)),
      (''deltaFiles'', JNumber (cmp_deltaFiles c)),
      (''deltaLines'', JNumber (cmp_deltaLines c)),
      (''deltaBranches'', JNumber (cmp_deltaBranches c)),
      (''deltaHits'', JNumber (cmp_deltaHits c)),
      (''deltaMisses'', JNumber (cmp_deltaMisses c)),
      (''deltaPartials'', JNumber (cmp_deltaPartials c)),
      (''baseBranch'', opt_val JString (cmp_baseBranch c)),
      (''headCommit'', opt_val JString (cmp_headCommit c)),
      (''baseCommit'', opt_val JString (cmp_baseCommit c)),
      (''baseFiles'', JNumber (cmp_baseFiles c)),
      (''baseLines'', JNumber (cmp_baseLines c)),
      (''baseBranches'', JNumber (cmp_baseBranches c)),
      (''baseHits'', JNumber (cmp_baseHits c)),
      (''baseMisses'', JNumber (cmp_baseMisses c)),
      (''basePartials'', JNumber (cmp_basePartials c)),
      (''currentFiles'', JNumber (cmp_currentFiles c)),
      (''currentLines'', JNumber (cmp_currentLines c)),
      (''currentBranches'', JNumber (cmp_currentBranches c)),
      (''currentHits'', JNumber (cmp_currentHits c)),
      (''currentMisses'', JNumber (cmp_currentMisses c)),
      (''currentPartials'', JNumber (cmp_currentPartials c))]"

text \<open>The properties of an aggregated summary; an optional field that is not set is undefined.\<close>

definition AggregatedCoverageResults_props ::
  "AggregatedCoverageResults \<Rightarrow> (string \<times> jsval) list" where
  "AggregatedCoverageResults_props r =
     [(''totalStatements'', JNumber (agg_totalStatements r)),
      (''coveredStatements'', JNumber (agg_coveredStatements r)),
      (''totalConditionals'', JNumber (agg_totalConditionals r)),
      (''coveredConditionals'', JNumber (agg_coveredConditionals r)),
      (''totalMethods'', JNumber (agg_totalMethods r)),
      (''coveredMethods'', JNumber (agg_coveredMethods r)),
      (''lineRate'', JNumber (agg_lineRate r)),
      (''branchRate'', JNumber (agg_branchRate r)),
      (''files'', JArray (map FileCoverage_obj (agg_files r))),
      (''comparison'', opt_val CoverageComparison_obj (agg_comparison r)),
      (''flags'', opt_val (\<lambda>xs. JArray (map JString xs)) (agg_flags r)),
      (''name'', opt_val JString (agg_name r)),
      (''totalHits'', opt_val JNumber (agg_totalHits r)),
      (''totalMisses'', opt_val JNumber (agg_totalMisses r)),
      (''totalPartials'', opt_val JNumber (agg_totalPartials r)),
      (''totalBranches'', opt_val JNumber (agg_totalBranches r)),
      (''totalFiles'', opt_val JNumber (agg_totalFiles r)),
      (''totalLines'', opt_val JNumber (agg_totalLines r)),
      (''patchCoverageRate'', opt_val JNumber (agg_patchCoverageRate r))]"

section \<open>The artifact manager (utils/artifact-manager.ts)\<close>

subsection \<open>The platform\<close>

text \<open>
  The CI platform, the artifact client and the file system are given from outside. Each call
  of the source that can throw has its outcome in the record \<open>world\<close>: a value, or the
  exception thrown. An archive that was downloaded is either unreadable or a list of files,
  each holding a text that \<^verbatim>\<open>JSON.parse\<close> rejects or the value it parses to.
\<close>

record workflow_run =
  run_id :: nat
  run_number :: nat

record artifact =
  art_id :: nat
  art_name :: string
  art_expired :: bool

record runs_query =
  q_owner :: string
  q_repo :: string
  q_branch :: "string option"
  q_head_sha :: "string option"
  q_status :: string
  q_per_page :: nat

datatype 'r archive = Corrupt error | Archive "(string \<times> (error + 'r)) list"

record 'r world =
  GITHUB_JOB :: "string option"
  tmpdir :: string
  listWorkflowRunsForRepo :: "runs_query \<Rightarrow> error + workflow_run list"
  listWorkflowRunArtifacts :: "string \<Rightarrow> string \<Rightarrow> nat \<Rightarrow> error + artifact list"
  downloadArtifact :: "string \<Rightarrow> string \<Rightarrow> nat \<Rightarrow> error + 'r archive"
  uploadArtifact :: "string \<Rightarrow> string list \<Rightarrow> string \<Rightarrow> error + nat"
  mkdtempSync :: "string \<Rightarrow> error + string"
  writeFileSync :: "string \<Rightarrow> error option"
  unlinkSync :: "string \<Rightarrow> error option"
  rmdirSync :: "string \<Rightarrow> error option"
  rmSync :: "string \<Rightarrow> error option"

text \<open>The fields \<^verbatim>\<open>owner\<close> and \<^verbatim>\<open>repo\<close> of an \<^verbatim>\<open>ArtifactManager\<close>.\<close>

record manager =
  mgr_owner :: string
  mgr_repo :: string

text \<open>
  What a run of a method does to the outside, in order: the log lines (without their
  pictographs) and the calls made to the platform. A call is recorded when it is made,
  whatever its outcome.
\<close>

datatype event =
    Info string
  | Warning string
  | ListRuns runs_query
  | ListArtifacts nat
  | Download nat
  | WriteJSON string jsval
  | WriteZip string
  | Upload string "string list" string

text \<open>A computation: the events so far, and the exception thrown or the value returned.\<close>

type_synonym 'a io = "event list \<times> (error + 'a)"

definition ok :: "'a \<Rightarrow> 'a io" where
  "ok x = ([], Inr x)"

definition emit :: "event \<Rightarrow> unit io" where
  "emit e = ([e], Inr ())"

definition call :: "event \<Rightarrow> error + 'a \<Rightarrow> 'a io" where
  "call e res = ([e], res)"

definition outcome :: "error + 'a \<Rightarrow> 'a io" where
  "outcome r = ([], r)"

definition attempt :: "error option \<Rightarrow> unit io" where
  "attempt res = ([], case res of None \<Rightarrow> Inr () | Some e \<Rightarrow> Inl e)"

definition bind_io :: "'a io \<Rightarrow> ('a \<Rightarrow> 'b io) \<Rightarrow> 'b io" where
  "bind_io m f =
     (case snd m of
        Inl e \<Rightarrow> (fst m, Inl e)
      | Inr x \<Rightarrow> (fst m @ fst (f x), snd (f x)))"

text \<open>\<^verbatim>\<open>try { body } catch (error) { handler }\<close>\<close>

definition catch :: "'a io \<Rightarrow> (error \<Rightarrow> 'a io) \<Rightarrow> 'a io" where
  "catch body handler =
     (case snd body of
        Inl e \<Rightarrow> (fst body @ fst (handler e), snd (handler e))
      | Inr x \<Rightarrow> body)"

text \<open>\<^verbatim>\<open>error instanceof Error ? error.message : "Unknown error"\<close>\<close>

fun message_of :: "error \<Rightarrow> string" where
  "message_of (Error m) = m"
| "message_of Thrown = ''Unknown error''"

subsection \<open>Strings\<close>

text \<open>\<^verbatim>\<open>xs.join(sep)\<close>\<close>

fun join :: "string \<Rightarrow> string list \<Rightarrow> string" where
  "join sep [] = []"
| "join sep [x] = x"
| "join sep (x # y # ys) = x @ sep @ join sep (y # ys)"

text \<open>\<^verbatim>\<open>`${xs[0]}`\<close>\<close>

definition first_name :: "string list \<Rightarrow> string" where
  "first_name xs = (case xs of [] \<Rightarrow> ''undefined'' | x # _ \<Rightarrow> x)"

text \<open>The decimal text of a natural number, for identifiers in log lines.\<close>

fun show_nat :: "nat \<Rightarrow> string" where
  "show_nat n =
     (if n < 10 then [char_of (48 + n)]
      else show_nat (n div 10) @ [char_of (48 + n mod 10)])"

declare show_nat.simps [simp del]

text \<open>\<^verbatim>\<open>path.join(a, b)\<close> for a directory and a plain name.\<close>

definition path_join :: "string \<Rightarrow> string \<Rightarrow> string" where
  "path_join a b = a @ ''/'' @ b"

text \<open>\<^verbatim>\<open>flags && flags.length > 0\<close>\<close>

definition has_flags :: "string list option \<Rightarrow> bool" where
  "has_flags flags = (case flags of None \<Rightarrow> False | Some fs \<Rightarrow> fs \<noteq> [])"

text \<open>The character class \<^verbatim>\<open>[a-zA-Z0-9-_]\<close>.\<close>

definition is_name_char :: "char \<Rightarrow> bool" where
  "is_name_char c =
     (let n = (of_char c :: nat)
      in (97 \<le> n \<and> n \<le> 122) \<or> (65 \<le> n \<and> n \<le> 90) \<or> (48 \<le> n \<and> n \<le> 57) \<or> n = 45 \<or> n = 95)"

text \<open>\<^verbatim>\<open>branchName.replace(/[^a-zA-Z0-9-_]/g, "-")\<close>\<close>

definition sanitizeBranchName :: "string \<Rightarrow> string" where
  "sanitizeBranchName branchName = map (\<lambda>c. if is_name_char c then c else CHR ''-'') branchName"

datatype kind = Test | Coverage

fun kind_str :: "kind \<Rightarrow> string" where
  "kind_str Test = ''test''"
| "kind_str Coverage = ''coverage''"

text \<open>
  The suffixes of an artifact name: \<^verbatim>\<open>x ? `-${sanitizeBranchName(x)}` : ""\<close> for the job
  and for the name, and the sanitized flags joined by hyphens when there are flags.
\<close>

definition str_suffix :: "string option \<Rightarrow> string" where
  "str_suffix v =
     (case v of None \<Rightarrow> [] | Some s \<Rightarrow> if s = [] then [] else ''-'' @ sanitizeBranchName s)"

definition flag_suffix :: "string list option \<Rightarrow> string" where
  "flag_suffix flags =
     (case flags of
        None \<Rightarrow> []
      | Some fs \<Rightarrow> if fs = [] then [] else ''-'' @ join ''-'' (map sanitizeBranchName fs))"

definition getArtifactName ::
  "'r world \<Rightarrow> string \<Rightarrow> kind \<Rightarrow> string list option \<Rightarrow> string option \<Rightarrow> string" where
  "getArtifactName w branchName type flags name =
     (let sanitized = sanitizeBranchName branchName;
          jobId = str_suffix (GITHUB_JOB w)
      in ''codecov-'' @ kind_str type @ ''-results-'' @ sanitized @ jobId
           @ str_suffix name @ flag_suffix flags)"

definition getLegacyArtifactName ::
  "string \<Rightarrow> kind \<Rightarrow> string list option \<Rightarrow> string option \<Rightarrow> string" where
  "getLegacyArtifactName branchName type flags name =
     (let sanitized = sanitizeBranchName branchName
      in ''codecov-'' @ kind_str type @ ''-results-'' @ sanitized
           @ str_suffix name @ flag_suffix flags)"

text \<open>\<^verbatim>\<open>[...new Set(xs)]\<close>: the first occurrence of every element, in order.\<close>

fun unique :: "'a list \<Rightarrow> 'a list \<Rightarrow> 'a list" where
  "unique seen [] = []"
| "unique seen (x # xs) = (if x \<in> set seen then unique seen xs else x # unique (seen @ [x]) xs)"

subsection \<open>Uploading the current results\<close>

text \<open>
  The body of the \<^verbatim>\<open>try\<close> block shared by \<^verbatim>\<open>uploadResults\<close> and \<^verbatim>\<open>uploadCoverageResults\<close>,
  from the creation of the temporary directory on: \<open>dirPrefix\<close>, \<open>fileName\<close> and \<open>label\<close> are
  the three texts in which the two methods differ.
\<close>

definition writeAndUpload ::
  "'r world \<Rightarrow> string \<Rightarrow> string \<Rightarrow> string \<Rightarrow> string \<Rightarrow> (string \<times> jsval) list \<Rightarrow> unit io" where
  "writeAndUpload w artifactName dirPrefix fileName label results =
     bind_io (outcome (mkdtempSync w (path_join (tmpdir w) dirPrefix))) (\<lambda>tmpDir.
       let resultsFile = path_join tmpDir fileName;
           resultsToSave = omit_comparison results
       in bind_io (call (WriteJSON resultsFile (JObject (JSON_props resultsToSave)))
                     (case writeFileSync w resultsFile of None \<Rightarrow> Inr () | Some e \<Rightarrow> Inl e))
            (\<lambda>_. bind_io (call (Upload artifactName [resultsFile] tmpDir)
                            (uploadArtifact w artifactName [resultsFile] tmpDir))
              (\<lambda>uploadResult_id.
                 bind_io (emit (Info (label @ '' artifact uploaded successfully. ID: ''
                                      @ show_nat uploadResult_id)))
                   (\<lambda>_. bind_io (attempt (unlinkSync w resultsFile))
                     (\<lambda>_. attempt (rmdirSync w tmpDir))))))"

definition uploadResults_body ::
  "'r world \<Rightarrow> (string \<times> jsval) list \<Rightarrow> string \<Rightarrow> string option \<Rightarrow> unit io" where
  "uploadResults_body w results branchName name =
     (let artifactName = getArtifactName w branchName Test None name
      in bind_io (emit (Info (''Uploading test results as artifact: '' @ artifactName)))
           (\<lambda>_. writeAndUpload w artifactName ''codecov-test-'' ''test-results.json'' ''Test''
                   results))"

text \<open>
  \<^verbatim>\<open>uploadResults\<close>. The test results are taken as the object they are at run time: the
  method reads nothing of them but their properties.
\<close>

definition uploadResults ::
  "'r world \<Rightarrow> (string \<times> jsval) list \<Rightarrow> string \<Rightarrow> string option \<Rightarrow> unit io" where
  "uploadResults w results branchName name =
     catch (uploadResults_body w results branchName name)
       (\<lambda>error. emit (Warning (''Failed to upload test artifact: '' @ message_of error)))"

definition uploadCoverageResults_body ::
  "'r world \<Rightarrow> AggregatedCoverageResults \<Rightarrow> string \<Rightarrow> string list option \<Rightarrow> string option \<Rightarrow>
   unit io" where
  "uploadCoverageResults_body w results branchName flags name =
     (let artifactName = getArtifactName w branchName Coverage flags name
      in bind_io (emit (Info (''Uploading coverage results as artifact: '' @ artifactName)))
           (\<lambda>_. bind_io
              (case flags of
                 None \<Rightarrow> ok ()
               | Some fs \<Rightarrow> if fs = [] then ok ()
                           else emit (Info (''   Flags: '' @ join '', '' fs)))
              (\<lambda>_. writeAndUpload w artifactName ''codecov-coverage-'' ''coverage-results.json''
                      ''Coverage'' (AggregatedCoverageResults_props results))))"

definition uploadCoverageResults ::
  "'r world \<Rightarrow> AggregatedCoverageResults \<Rightarrow> string \<Rightarrow> string list option \<Rightarrow> string option \<Rightarrow>
   unit io" where
  "uploadCoverageResults w results branchName flags name =
     catch (uploadCoverageResults_body w results branchName flags name)
       (\<lambda>error. emit (Warning (''Failed to upload coverage artifact: '' @ message_of error)))"

subsection \<open>Downloading the base results\<close>

text \<open>
  \<^verbatim>\<open>extractAndReadResults\<close> and \<^verbatim>\<open>extractAndReadCoverageResults\<close>, which differ in the file
  name and in the label of their messages: an unreadable archive or text is caught and gives
  \<^verbatim>\<open>null\<close> with a warning, a missing file gives \<^verbatim>\<open>null\<close> with another warning.
\<close>

definition extractAndRead :: "string \<Rightarrow> string \<Rightarrow> 'r archive \<Rightarrow> 'r option io" where
  "extractAndRead fileName label zipData =
     catch
       (case zipData of
          Corrupt e \<Rightarrow> outcome (Inl e)
        | Archive entries \<Rightarrow>
            (case map_of entries fileName of
               None \<Rightarrow>
                 bind_io (emit (Warning (''Downloaded artifact does not contain '' @ fileName)))
                   (\<lambda>_. ok None)
             | Some (Inl e) \<Rightarrow> outcome (Inl e)
             | Some (Inr results) \<Rightarrow>
                 bind_io (emit (Info (''Base '' @ label
                                      @ '' results downloaded and extracted successfully'')))
                   (\<lambda>_. ok (Some results))))
       (\<lambda>error.
          bind_io (emit (Warning (''Failed to extract '' @ label @ '' artifact: ''
                                  @ message_of error)))
            (\<lambda>_. ok None))"

text \<open>
  \<^verbatim>\<open>artifacts.find((a) => a.name === artifactName && !a.expired)\<close>, tried for each name in
  turn: the first name with such an artifact, and the first such artifact.
\<close>

fun findArtifact :: "string list \<Rightarrow> artifact list \<Rightarrow> (string \<times> artifact) option" where
  "findArtifact [] artifacts = None"
| "findArtifact (artifactName # rest) artifacts =
     (case List.find (\<lambda>a. art_name a = artifactName \<and> \<not> art_expired a) artifacts of
        Some artifact \<Rightarrow> Some (artifactName, artifact)
      | None \<Rightarrow> findArtifact rest artifacts)"

text \<open>The statements under \<^verbatim>\<open>if (artifact)\<close>, up to \<^verbatim>\<open>return results\<close>.\<close>

definition fetchArtifact ::
  "manager \<Rightarrow> 'r world \<Rightarrow> string \<Rightarrow> string \<Rightarrow> string \<Rightarrow> workflow_run \<Rightarrow> string \<Rightarrow> artifact \<Rightarrow>
   'r option io" where
  "fetchArtifact m w label dirPrefix fileName run artifactName artifact =
     bind_io (emit (Info (''Found '' @ label @ '' artifact '' @ [CHR 0x27] @ artifactName
                          @ [CHR 0x27] @ '' from run #'' @ show_nat (run_number run))))
       (\<lambda>_. bind_io (call (Download (art_id artifact))
                       (downloadArtifact w (mgr_owner m) (mgr_repo m) (art_id artifact)))
         (\<lambda>download.
            bind_io (outcome (mkdtempSync w (path_join (tmpdir w) dirPrefix))) (\<lambda>tmpDir.
              let zipPath = path_join tmpDir ''artifact.zip''
              in bind_io (call (WriteZip zipPath)
                            (case writeFileSync w zipPath of None \<Rightarrow> Inr () | Some e \<Rightarrow> Inl e))
                   (\<lambda>_. bind_io (extractAndRead fileName label download)
                     (\<lambda>results. bind_io (attempt (unlinkSync w zipPath))
                       (\<lambda>_. bind_io (attempt (rmSync w tmpDir))
                         (\<lambda>_. ok results)))))))"

text \<open>
  The loop over the workflow runs. \<open>Some results\<close> is the \<^verbatim>\<open>return results\<close> inside the loop
  (with \<^verbatim>\<open>results\<close> possibly \<^verbatim>\<open>null\<close>), \<open>None\<close> is the end of the loop.
\<close>

fun scanRuns ::
  "manager \<Rightarrow> 'r world \<Rightarrow> string \<Rightarrow> string \<Rightarrow> string \<Rightarrow> string list \<Rightarrow> workflow_run list \<Rightarrow>
   'r option option io" where
  "scanRuns m w label dirPrefix fileName artifactNamesToTry [] = ok None"
| "scanRuns m w label dirPrefix fileName artifactNamesToTry (run # rest) =
     bind_io (call (ListArtifacts (run_id run))
                (listWorkflowRunArtifacts w (mgr_owner m) (mgr_repo m) (run_id run)))
       (\<lambda>artifacts.
          case findArtifact artifactNamesToTry artifacts of
            Some found \<Rightarrow>
              bind_io (fetchArtifact m w label dirPrefix fileName run (fst found) (snd found))
                (\<lambda>results. ok (Some results))
          | None \<Rightarrow> scanRuns m w label dirPrefix fileName artifactNamesToTry rest)"

text \<open>The query for the successful runs of a branch, and the one for those of a commit.\<close>

definition branch_query :: "manager \<Rightarrow> string \<Rightarrow> runs_query" where
  "branch_query m baseBranch =
     \<lparr> q_owner = mgr_owner m, q_repo = mgr_repo m, q_branch = Some baseBranch,
       q_head_sha = None, q_status = ''success'', q_per_page = 10 \<rparr>"


text \<open>
  What both download methods do once the list of runs is there: nothing but a log line when
  it is empty, the scan otherwise, and a log line when the scan ends without a hit.
\<close>

definition scanBaseRuns ::
  "manager \<Rightarrow> 'r world \<Rightarrow> string \<Rightarrow> string \<Rightarrow> string \<Rightarrow> string \<Rightarrow> string list \<Rightarrow>
   workflow_run list \<Rightarrow> 'r option io" where
  "scanBaseRuns m w label dirPrefix fileName baseBranch artifactNamesToTry workflow_runs =
     (if workflow_runs = []
      then bind_io (emit (Info (''No successful workflow runs found for branch '' @ [CHR 0x27]
                                @ baseBranch @ [CHR 0x27])))
             (\<lambda>_. ok None)
      else bind_io (scanRuns m w label dirPrefix fileName artifactNamesToTry workflow_runs)
             (\<lambda>returned.
                case returned of
                  Some results \<Rightarrow> ok results
                | None \<Rightarrow>
                    bind_io (emit (Info (''No artifact '' @ [CHR 0x27] @ first_name artifactNamesToTry
                                         @ [CHR 0x27] @ '' found in recent workflow runs'')))
                      (\<lambda>_. ok None)))"

text \<open>The ordered candidate names of \<^verbatim>\<open>downloadBaseCoverageResults\<close>.\<close>

definition coverageNamesToTry ::
  "'r world \<Rightarrow> string \<Rightarrow> string list option \<Rightarrow> string option \<Rightarrow> string list" where
  "coverageNamesToTry w baseBranch flags name =
     (let flaggedArtifactName = getArtifactName w baseBranch Coverage flags name;
          unflaggedArtifactName = getArtifactName w baseBranch Coverage None None;
          legacyFlaggedArtifactName = getLegacyArtifactName baseBranch Coverage flags name;
          legacyUnflaggedArtifactName = getLegacyArtifactName baseBranch Coverage None None
      in unique [] [flaggedArtifactName, unflaggedArtifactName, legacyFlaggedArtifactName,
                    legacyUnflaggedArtifactName])"

definition downloadBaseCoverageResults_body ::
  "manager \<Rightarrow> 'r world \<Rightarrow> string \<Rightarrow> string list option \<Rightarrow> string option \<Rightarrow> 'r option io" where
  "downloadBaseCoverageResults_body m w baseBranch flags name =
     (let artifactNamesToTry = coverageNamesToTry w baseBranch flags name
      in bind_io (emit (Info (''Attempting to download base coverage results: ''
                              @ first_name artifactNamesToTry)))
           (\<lambda>_. bind_io
              (case flags of
                 None \<Rightarrow> ok ()
               | Some fs \<Rightarrow> if fs = [] then ok ()
                           else emit (Info (''   Looking for flags: '' @ join '', '' fs)))
              (\<lambda>_. bind_io (call (ListRuns (branch_query m baseBranch))
                              (listWorkflowRunsForRepo w (branch_query m baseBranch)))
                 (scanBaseRuns m w ''coverage'' ''codecov-base-coverage-''
                    ''coverage-results.json'' baseBranch artifactNamesToTry))))"

definition downloadBaseCoverageResults ::
  "manager \<Rightarrow> 'r world \<Rightarrow> string \<Rightarrow> string list option \<Rightarrow> string option \<Rightarrow> 'r option io" where
  "downloadBaseCoverageResults m w baseBranch flags name =
     catch (downloadBaseCoverageResults_body m w baseBranch flags name)
       (\<lambda>error.
          bind_io (emit (Warning (''Failed to download base coverage artifact: ''
                                  @ message_of error)))
            (\<lambda>_. ok None))"




subsection \<open>The end of processCoverage (index.ts)\<close>

text \<open>
  \<^verbatim>\<open>processCoverage\<close> after the aggregation: the upload, then the download of the base
  summary and, when there is one, the comparison stored in the \<^verbatim>\<open>comparison\<close> field of the
  summary that is returned. The log lines and action outputs of this part, which print
  numbers, are left out; they do not touch the summary.
\<close>

definition attachComparison ::
  "manager \<Rightarrow> AggregatedCoverageResults world \<Rightarrow> AggregatedCoverageResults \<Rightarrow> string \<Rightarrow>
   AggregatedCoverageResults io" where
  "attachComparison m w aggregatedResults baseBranch =
     bind_io (downloadBaseCoverageResults m w baseBranch None None)
       (\<lambda>baseCoverage.
          case baseCoverage of
            Some base \<Rightarrow>
              ok (aggregatedResults
                    \<lparr> agg_comparison := Some (compareResults base aggregatedResults None) \<rparr>)
          | None \<Rightarrow> ok aggregatedResults)"

definition persistAndCompare ::
  "manager \<Rightarrow> AggregatedCoverageResults world \<Rightarrow> AggregatedCoverageResults \<Rightarrow> string \<Rightarrow> string \<Rightarrow>
   AggregatedCoverageResults io" where
  "persistAndCompare m w aggregatedResults currentBranch baseBranch =
     bind_io (uploadCoverageResults w aggregatedResults currentBranch None None)
       (\<lambda>_. attachComparison m w aggregatedResults baseBranch)"

subsection \<open>Retrieval with a base commit\<close>



section \<open>Notions used to state the properties\<close>

text \<open>The sum of one counter over the metrics of a sequence of parsed documents.\<close>

definition sum_field :: "(CoverageMetrics \<Rightarrow> jsnum) \<Rightarrow> CoverageResults list \<Rightarrow> jsnum" where
  "sum_field fld rs = jsum (map (\<lambda>r. fld (cr_metrics r)) rs)"





subsection \<open>Sample inputs\<close>

text \<open>A parsed document with the given covered and total statement counts and no files.\<close>

definition doc_of_counts :: "rat \<Rightarrow> rat \<Rightarrow> CoverageResults" where
  "doc_of_counts c t =
     \<lparr> cr_timestamp = Num 0,
       cr_metrics = \<lparr> cm_statements = Num t, cm_coveredStatements = Num c,
                      cm_conditionals = Num 0, cm_coveredConditionals = Num 0,
                      cm_methods = Num 0, cm_coveredMethods = Num 0,
                      cm_elements = Num 0, cm_coveredElements = Num 0,
                      cm_lineRate = rate (Num c) (Num t), cm_branchRate = Num 0 \<rparr>,
       cr_files = [] \<rparr>"




subsection \<open>Closed forms of the comparator's loops\<close>

text \<open>What one entry of the current map contributes to \<^verbatim>\<open>filesChanged\<close>.\<close>

definition changed_entry ::
  "(string \<times> FileCoverage) list \<Rightarrow> string \<times> FileCoverage \<Rightarrow> FileComparison list" where
  "changed_entry bm e =
     (case Map_get bm (fst e) of
        None \<Rightarrow> []
      | Some baseFile \<Rightarrow>
          if fcmp_deltaLineRate (compareFiles baseFile (snd e)) \<noteq> Num 0
             \<or> fcmp_deltaBranchRate (compareFiles baseFile (snd e)) \<noteq> Num 0
          then [compareFiles baseFile (snd e)] else [])"

text \<open>The last entry of a file list with a given path.\<close>

definition last_with_path :: "string \<Rightarrow> FileCoverage list \<Rightarrow> FileCoverage option" where
  "last_with_path p fs = List.find (\<lambda>f. fc_path f = p) (rev fs)"

text \<open>A finite number with at most two decimals, as every rounded rate is.\<close>

fun is_2dec :: "jsnum \<Rightarrow> bool" where
  "is_2dec (Num q) = (of_int \<lfloor>q * 100\<rfloor> = q * 100)"
| "is_2dec NaN = False"

text \<open>A file record and a summary with given counts, for the examples.\<close>

definition file_of_counts :: "string \<Rightarrow> rat \<Rightarrow> rat \<Rightarrow> FileCoverage" where
  "file_of_counts p c t =
     \<lparr> fc_name = p, fc_path = p, fc_statements = Num t, fc_coveredStatements = Num c,
       fc_conditionals = Num 0, fc_coveredConditionals = Num 0,
       fc_methods = Num 0, fc_coveredMethods = Num 0,
       fc_lineRate = rate (Num c) (Num t), fc_branchRate = Num 0, fc_lines = [],
       fc_missingLines = None, fc_partialLines = None, fc_patchCoverage = None \<rparr>"

definition summary_of :: "rat \<Rightarrow> rat \<Rightarrow> FileCoverage list \<Rightarrow> AggregatedCoverageResults" where
  "summary_of lr br fs =
     \<lparr> agg_totalStatements = Num 100, agg_coveredStatements = Num lr,
       agg_totalConditionals = Num 100, agg_coveredConditionals = Num br,
       agg_totalMethods = Num 0, agg_coveredMethods = Num 0,
       agg_lineRate = Num lr, agg_branchRate = Num br, agg_files = fs,
       agg_comparison = None, agg_flags = None, agg_name = None, agg_totalHits = None,
       agg_totalMisses = None, agg_totalPartials = None, agg_totalBranches = None,
       agg_totalFiles = None, agg_totalLines = None, agg_patchCoverageRate = None \<rparr>"

text \<open>
  Two summaries for the examples: the base lists path \<open>a\<close> twice; the current one has \<open>a\<close> with
  another rate, \<open>b\<close> with other counts and the same rate, and \<open>c\<close> listed twice.
\<close>

definition sample_base :: AggregatedCoverageResults where
  "sample_base =
     summary_of 75 0 [file_of_counts ''a'' 7 10, file_of_counts ''b'' 8 10, file_of_counts ''a'' 1 10]"

definition sample_current :: AggregatedCoverageResults where
  "sample_current =
     summary_of 85 0 [file_of_counts ''a'' 85 100, file_of_counts ''b'' 80 100,
                      file_of_counts ''c'' 9 10, file_of_counts ''c'' 5 10]"

subsection \<open>Sample platforms\<close>

text \<open>A platform on which every call succeeds and no workflow run exists.\<close>

definition quiet_world :: "'r world" where
  "quiet_world =
     \<lparr> GITHUB_JOB = Some ''build'', tmpdir = ''/tmp'',
       listWorkflowRunsForRepo = (\<lambda>_. Inr []),
       listWorkflowRunArtifacts = (\<lambda>_ _ _. Inr []),
       downloadArtifact = (\<lambda>_ _ _. Inl (Error ''Not Found'')),
       uploadArtifact = (\<lambda>_ _ _. Inr 7),
       mkdtempSync = (\<lambda>prefix. Inr (prefix @ ''XXXXXX'')),
       writeFileSync = (\<lambda>_. None), unlinkSync = (\<lambda>_. None),
       rmdirSync = (\<lambda>_. None), rmSync = (\<lambda>_. None) \<rparr>"

text \<open>The same platform with an artifact store that rejects every upload.\<close>

definition outage_world :: "'r world" where
  "outage_world = quiet_world \<lparr> uploadArtifact := (\<lambda>_ _ _. Inl (Error ''network error'')) \<rparr>"

definition sample_manager :: manager where
  "sample_manager = \<lparr> mgr_owner = ''owner'', mgr_repo = ''repo'' \<rparr>"

text \<open>A test results object that already carries a comparison.\<close>

definition sample_test_results :: "(string \<times> jsval) list" where
  "sample_test_results =
     [(''totalTests'', JNumber (Num 3)), (''passedTests'', JNumber (Num 2)),
      (''comparison'', JObject [(''deltaTotal'', JNumber (Num 1))]),
      (''passRate'', JNumber (Num (6667 / 100)))]"





section \<open>Properties of the parser and the aggregation\<close>

lemma jadd_assoc: "jadd (jadd a b) c = jadd a (jadd b c)"
  by (cases a; cases b; cases c) simp_all

lemma jadd_zero_left: "jadd (Num 0) a = a"
  by (cases a) simp_all

lemma jadd_zero_right: "jadd a (Num 0) = a"
  by (cases a) simp_all

lemma fold_totalStatements:
  "acc_totalStatements (foldl agg_step acc rs) =
     jadd (acc_totalStatements acc) (sum_field cm_statements rs)"
  by (induction rs arbitrary: acc)
     (simp_all add: sum_field_def agg_step_def jadd_assoc jadd_zero_right)

lemma fold_coveredStatements:
  "acc_coveredStatements (foldl agg_step acc rs) =
     jadd (acc_coveredStatements acc) (sum_field cm_coveredStatements rs)"
  by (induction rs arbitrary: acc)
     (simp_all add: sum_field_def agg_step_def jadd_assoc jadd_zero_right)

lemma fold_totalConditionals:
  "acc_totalConditionals (foldl agg_step acc rs) =
     jadd (acc_totalConditionals acc) (sum_field cm_conditionals rs)"
  by (induction rs arbitrary: acc)
     (simp_all add: sum_field_def agg_step_def jadd_assoc jadd_zero_right)

lemma fold_coveredConditionals:
  "acc_coveredConditionals (foldl agg_step acc rs) =
     jadd (acc_coveredConditionals acc) (sum_field cm_coveredConditionals rs)"
  by (induction rs arbitrary: acc)
     (simp_all add: sum_field_def agg_step_def jadd_assoc jadd_zero_right)

lemma fold_totalMethods:
  "acc_totalMethods (foldl agg_step acc rs) =
     jadd (acc_totalMethods acc) (sum_field cm_methods rs)"
  by (induction rs arbitrary: acc)
     (simp_all add: sum_field_def agg_step_def jadd_assoc jadd_zero_right)

lemma fold_coveredMethods:
  "acc_coveredMethods (foldl agg_step acc rs) =
     jadd (acc_coveredMethods acc) (sum_field cm_coveredMethods rs)"
  by (induction rs arbitrary: acc)
     (simp_all add: sum_field_def agg_step_def jadd_assoc jadd_zero_right)

lemma fold_allFiles:
  "acc_allFiles (foldl agg_step acc rs) = acc_allFiles acc @ concat (map cr_files rs)"
  by (induction rs arbitrary: acc) (simp_all add: agg_step_def)

lemmas fold_agg =
  fold_totalStatements fold_coveredStatements fold_totalConditionals fold_coveredConditionals
  fold_totalMethods fold_coveredMethods fold_allFiles

lemma aggregateResults_sums:
  "aggregateResults rs =
     \<lparr> agg_totalStatements = sum_field cm_statements rs,
       agg_coveredStatements = sum_field cm_coveredStatements rs,
       agg_totalConditionals = sum_field cm_conditionals rs,
       agg_coveredConditionals = sum_field cm_coveredConditionals rs,
       agg_totalMethods = sum_field cm_methods rs,
       agg_coveredMethods = sum_field cm_coveredMethods rs,
       agg_lineRate = rate (sum_field cm_coveredStatements rs) (sum_field cm_statements rs),
       agg_branchRate = rate (sum_field cm_coveredConditionals rs) (sum_field cm_conditionals rs),
       agg_files = concat (map cr_files rs),
       agg_comparison = None, agg_flags = None, agg_name = None, agg_totalHits = None,
       agg_totalMisses = None, agg_totalPartials = None, agg_totalBranches = None,
       agg_totalFiles = None, agg_totalLines = None, agg_patchCoverageRate = None \<rparr>"
  by (simp add: aggregateResults_def Let_def fold_agg agg_init_def jadd_zero_left)








subsection \<open>The rates of the Clover parser\<close>









section \<open>Properties of the comparator\<close>

subsection \<open>The lookup maps\<close>

lemma map_of_Map_set: "map_of (Map_set m k v) = (map_of m)(k \<mapsto> v)"
  by (induction m k v rule: Map_set.induct) (auto simp: fun_eq_iff)

lemma keys_Map_set: "set (map fst (Map_set m k v)) = insert k (set (map fst m))"
  by (induction m k v rule: Map_set.induct) auto

lemma distinct_Map_set: "distinct (map fst m) \<Longrightarrow> distinct (map fst (Map_set m k v))"
proof (induction m k v rule: Map_set.induct)
  case (1 k v)
  show ?case by simp
next
  case (2 k' v' m k v)
  then show ?case using keys_Map_set [of m k v] by auto
qed

lemma find_app:
  "List.find P (xs @ ys) = (case List.find P xs of Some x \<Rightarrow> Some x | None \<Rightarrow> List.find P ys)"
  by (induction xs) simp_all

lemma foldl_Map_set_lookup:
  "map_of (foldl (\<lambda>m file. Map_set m (fc_path file) file) m0 fs) p =
     (case List.find (\<lambda>f. fc_path f = p) (rev fs) of Some f \<Rightarrow> Some f | None \<Rightarrow> map_of m0 p)"
proof (induction fs arbitrary: m0)
  case Nil
  show ?case by simp
next
  case (Cons f fs)
  show ?case
    by (simp add: Cons.IH map_of_Map_set find_app split: option.splits)
qed

lemma foldl_Map_set_distinct:
  "distinct (map fst m0) \<Longrightarrow>
     distinct (map fst (foldl (\<lambda>m file. Map_set m (fc_path file) file) m0 fs))"
  by (induction fs arbitrary: m0) (simp_all add: distinct_Map_set)

lemma foldl_Map_set_keys:
  "set (map fst (foldl (\<lambda>m file. Map_set m (fc_path file) file) m0 fs)) =
     set (map fst m0) \<union> fc_path ` set fs"
  by (induction fs arbitrary: m0) (simp_all add: keys_Map_set del: set_map)

lemma Map_get_buildFileMap: "Map_get (buildFileMap fs) p = last_with_path p fs"
  by (simp add: Map_get_def buildFileMap_def foldl_Map_set_lookup last_with_path_def
      split: option.splits)

lemma distinct_buildFileMap: "distinct (map fst (buildFileMap fs))"
  by (simp add: buildFileMap_def foldl_Map_set_distinct)

lemma keys_buildFileMap: "set (map fst (buildFileMap fs)) = fc_path ` set fs"
  by (simp add: buildFileMap_def foldl_Map_set_keys del: set_map)

lemma Map_has_buildFileMap: "Map_has (buildFileMap fs) p \<longleftrightarrow> p \<in> fc_path ` set fs"
proof -
  have "Map_has (buildFileMap fs) p \<longleftrightarrow> p \<in> set (map fst (buildFileMap fs))"
    by (simp add: Map_has_def map_of_eq_None_iff)
  then show ?thesis by (simp only: keys_buildFileMap)
qed

lemma Map_get_None_iff: "Map_get m k = None \<longleftrightarrow> \<not> Map_has m k"
  by (simp add: Map_get_def Map_has_def)

lemma entry_buildFileMap:
  assumes "(k, v) \<in> set (buildFileMap fs)"
  shows "Map_get (buildFileMap fs) k = Some v"
  using assms distinct_buildFileMap [of fs] by (simp add: Map_get_def)

lemma find_Some_path: "List.find (\<lambda>f. fc_path f = p) xs = Some f \<Longrightarrow> fc_path f = p \<and> f \<in> set xs"
  by (auto simp: find_Some_iff)

lemma entry_path_buildFileMap:
  assumes "(k, v) \<in> set (buildFileMap fs)"
  shows "fc_path v = k" and "v \<in> set fs"
  using entry_buildFileMap [OF assms] find_Some_path [of k "rev fs" v]
  by (simp_all add: Map_get_buildFileMap last_with_path_def)

subsection \<open>The two loops\<close>

lemma added_changed_step_eq:
  "added_changed_step bm st e =
     (fst st @ (if Map_has bm (fst e) then [] else [snd e]), snd st @ changed_entry bm e)"
  by (cases "Map_get bm (fst e)")
     (simp_all add: added_changed_step_def changed_entry_def Let_def Map_get_def Map_has_def)

lemma foldl_added_changed:
  "foldl (added_changed_step bm) st cm =
     (fst st @ map snd (filter (\<lambda>e. \<not> Map_has bm (fst e)) cm),
      snd st @ concat (map (changed_entry bm) cm))"
proof (induction cm arbitrary: st)
  case Nil
  show ?case by simp
next
  case (Cons e cm)
  have "foldl (added_changed_step bm) st (e # cm) =
          foldl (added_changed_step bm) (added_changed_step bm st e) cm"
    by simp
  also have "\<dots> =
      (fst (added_changed_step bm st e) @ map snd (filter (\<lambda>e. \<not> Map_has bm (fst e)) cm),
       snd (added_changed_step bm st e) @ concat (map (changed_entry bm) cm))"
    by (rule Cons.IH)
  also have "\<dots> =
      (fst st @ map snd (filter (\<lambda>e. \<not> Map_has bm (fst e)) (e # cm)),
       snd st @ concat (map (changed_entry bm) (e # cm)))"
    by (simp add: added_changed_step_eq)
  finally show ?case .
qed

lemma foldl_removed:
  "foldl (removed_step cm) acc bm = acc @ map snd (filter (\<lambda>e. \<not> Map_has cm (fst e)) bm)"
  by (induction bm arbitrary: acc) (simp_all add: removed_step_def)

subsection \<open>Closed forms of the result lists\<close>

lemma cmp_filesAdded_eq:
  "cmp_filesAdded (compareResults b c opts) =
     map snd (filter (\<lambda>e. \<not> Map_has (buildFileMap (agg_files b)) (fst e))
                     (buildFileMap (agg_files c)))"
  by (simp add: compareResults_def Let_def foldl_added_changed)

lemma cmp_filesChanged_eq:
  "cmp_filesChanged (compareResults b c opts) =
     concat (map (changed_entry (buildFileMap (agg_files b))) (buildFileMap (agg_files c)))"
  by (simp add: compareResults_def Let_def foldl_added_changed)

lemma cmp_filesRemoved_eq:
  "cmp_filesRemoved (compareResults b c opts) =
     map snd (filter (\<lambda>e. \<not> Map_has (buildFileMap (agg_files c)) (fst e))
                     (buildFileMap (agg_files b)))"
  by (simp add: compareResults_def Let_def foldl_removed)

lemma paths_of_entries:
  assumes "\<forall>e \<in> set m. fc_path (snd e) = fst e"
  shows "map fc_path (map snd (filter P m)) = map fst (filter P m)"
  using assms by (induction m) simp_all

lemma fcmp_path_compareFiles: "fcmp_path (compareFiles bf cf) = fc_path cf"
  by (simp add: compareFiles_def)

lemma changed_entry_cases:
  "changed_entry bm e = [] \<or>
   (\<exists>bf. Map_get bm (fst e) = Some bf \<and> changed_entry bm e = [compareFiles bf (snd e)]
      \<and> (fcmp_deltaLineRate (compareFiles bf (snd e)) \<noteq> Num 0
          \<or> fcmp_deltaBranchRate (compareFiles bf (snd e)) \<noteq> Num 0))"
  by (cases "Map_get bm (fst e)") (simp_all add: changed_entry_def)

lemma paths_of_changed:
  assumes "\<forall>e \<in> set m. fc_path (snd e) = fst e"
  shows "map fcmp_path (concat (map (changed_entry bm) m)) =
           map fst (filter (\<lambda>e. changed_entry bm e \<noteq> []) m)"
  using assms
proof (induction m)
  case Nil
  show ?case by simp
next
  case (Cons e m)
  then have IH: "map fcmp_path (concat (map (changed_entry bm) m)) =
           map fst (filter (\<lambda>e. changed_entry bm e \<noteq> []) m)"
    and e: "fc_path (snd e) = fst e"
    by simp_all
  show ?case
    using changed_entry_cases [of bm e] by (auto simp: IH e fcmp_path_compareFiles)
qed

lemma buildFileMap_paths: "\<forall>e \<in> set (buildFileMap fs). fc_path (snd e) = fst e"
  using entry_path_buildFileMap(1) by (metis prod.collapse)

lemma distinct_filter_keys: "distinct (map fst (filter P (buildFileMap fs)))"
  by (rule distinct_map_filter) (rule distinct_buildFileMap)

lemma distinct_filesAdded: "distinct (map fc_path (cmp_filesAdded (compareResults b c opts)))"
  by (simp only: cmp_filesAdded_eq paths_of_entries [OF buildFileMap_paths] distinct_filter_keys)

lemma distinct_filesRemoved: "distinct (map fc_path (cmp_filesRemoved (compareResults b c opts)))"
  by (simp only: cmp_filesRemoved_eq paths_of_entries [OF buildFileMap_paths] distinct_filter_keys)

lemma distinct_filesChanged: "distinct (map fcmp_path (cmp_filesChanged (compareResults b c opts)))"
  by (simp only: cmp_filesChanged_eq paths_of_changed [OF buildFileMap_paths] distinct_filter_keys)

lemma last_with_path_Some:
  "last_with_path p fs = Some f \<Longrightarrow> fc_path f = p \<and> f \<in> set fs"
  using find_Some_path [of p "rev fs" f] by (simp add: last_with_path_def)

lemma last_with_path_None_iff: "last_with_path p fs = None \<longleftrightarrow> p \<notin> fc_path ` set fs"
  by (auto simp: last_with_path_def find_None_iff)

lemma entry_is_last:
  assumes "(k, v) \<in> set (buildFileMap fs)"
  shows "last_with_path k fs = Some v"
  using entry_buildFileMap [OF assms] by (simp add: Map_get_buildFileMap)

lemma last_is_entry:
  assumes "last_with_path k fs = Some v"
  shows "(k, v) \<in> set (buildFileMap fs)"
  using assms map_of_SomeD [of "buildFileMap fs" k v]
  by (simp add: Map_get_buildFileMap [symmetric] Map_get_def)

lemma filesAdded_member:
  "f \<in> set (cmp_filesAdded (compareResults b c opts)) \<longleftrightarrow>
     last_with_path (fc_path f) (agg_files c) = Some f \<and> fc_path f \<notin> fc_path ` set (agg_files b)"
proof
  assume "f \<in> set (cmp_filesAdded (compareResults b c opts))"
  then obtain k where k: "(k, f) \<in> set (buildFileMap (agg_files c))"
    and nb: "\<not> Map_has (buildFileMap (agg_files b)) k"
    by (auto simp: cmp_filesAdded_eq)
  have "fc_path f = k" using entry_path_buildFileMap(1) [OF k] .
  then show "last_with_path (fc_path f) (agg_files c) = Some f
      \<and> fc_path f \<notin> fc_path ` set (agg_files b)"
    using entry_is_last [OF k] nb by (simp add: Map_has_buildFileMap)
next
  assume a: "last_with_path (fc_path f) (agg_files c) = Some f
      \<and> fc_path f \<notin> fc_path ` set (agg_files b)"
  then have "(fc_path f, f) \<in> set (buildFileMap (agg_files c))"
    using last_is_entry by blast
  moreover have "\<not> Map_has (buildFileMap (agg_files b)) (fc_path f)"
    using a by (simp add: Map_has_buildFileMap)
  ultimately show "f \<in> set (cmp_filesAdded (compareResults b c opts))"
    by (force simp: cmp_filesAdded_eq)
qed

lemma filesRemoved_eq_filesAdded:
  "cmp_filesRemoved (compareResults b c opts) = cmp_filesAdded (compareResults c b opts')"
  by (simp only: cmp_filesRemoved_eq cmp_filesAdded_eq)

lemma filesRemoved_member:
  "f \<in> set (cmp_filesRemoved (compareResults b c opts)) \<longleftrightarrow>
     last_with_path (fc_path f) (agg_files b) = Some f \<and> fc_path f \<notin> fc_path ` set (agg_files c)"
  by (simp only: filesRemoved_eq_filesAdded [of b c opts None] filesAdded_member)

lemma filesChanged_member:
  "x \<in> set (cmp_filesChanged (compareResults b c opts)) \<longleftrightarrow>
     (\<exists>bf cf. last_with_path (fc_path cf) (agg_files b) = Some bf
        \<and> last_with_path (fc_path cf) (agg_files c) = Some cf
        \<and> x = compareFiles bf cf
        \<and> (fcmp_deltaLineRate x \<noteq> Num 0 \<or> fcmp_deltaBranchRate x \<noteq> Num 0))"
proof
  assume "x \<in> set (cmp_filesChanged (compareResults b c opts))"
  then obtain e where e: "e \<in> set (buildFileMap (agg_files c))"
    and x: "x \<in> set (changed_entry (buildFileMap (agg_files b)) e)"
    by (auto simp: cmp_filesChanged_eq)
  obtain k cf where kc: "e = (k, cf)" by (cases e)
  from x changed_entry_cases [of "buildFileMap (agg_files b)" e]
  obtain bf where bf: "Map_get (buildFileMap (agg_files b)) k = Some bf"
    and xe: "x = compareFiles bf cf"
    and ch: "fcmp_deltaLineRate x \<noteq> Num 0 \<or> fcmp_deltaBranchRate x \<noteq> Num 0"
    by (auto simp: kc)
  have p: "fc_path cf = k" using entry_path_buildFileMap(1) e kc by blast
  have "last_with_path (fc_path cf) (agg_files c) = Some cf"
    using entry_is_last e kc p by blast
  moreover have "last_with_path (fc_path cf) (agg_files b) = Some bf"
    using bf p by (simp add: Map_get_buildFileMap)
  ultimately show "\<exists>bf cf. last_with_path (fc_path cf) (agg_files b) = Some bf
        \<and> last_with_path (fc_path cf) (agg_files c) = Some cf
        \<and> x = compareFiles bf cf
        \<and> (fcmp_deltaLineRate x \<noteq> Num 0 \<or> fcmp_deltaBranchRate x \<noteq> Num 0)"
    using xe ch by blast
next
  assume "\<exists>bf cf. last_with_path (fc_path cf) (agg_files b) = Some bf
        \<and> last_with_path (fc_path cf) (agg_files c) = Some cf
        \<and> x = compareFiles bf cf
        \<and> (fcmp_deltaLineRate x \<noteq> Num 0 \<or> fcmp_deltaBranchRate x \<noteq> Num 0)"
  then obtain bf cf where bf: "last_with_path (fc_path cf) (agg_files b) = Some bf"
    and cf: "last_with_path (fc_path cf) (agg_files c) = Some cf"
    and x: "x = compareFiles bf cf"
    and ch: "fcmp_deltaLineRate x \<noteq> Num 0 \<or> fcmp_deltaBranchRate x \<noteq> Num 0"
    by blast
  have e: "(fc_path cf, cf) \<in> set (buildFileMap (agg_files c))"
    using last_is_entry [OF cf] .
  have "changed_entry (buildFileMap (agg_files b)) (fc_path cf, cf) = [x]"
    using bf ch by (simp add: changed_entry_def Map_get_buildFileMap x)
  then show "x \<in> set (cmp_filesChanged (compareResults b c opts))"
    using e by (force simp: cmp_filesChanged_eq)
qed

subsection \<open>Rounding and deltas\<close>

lemma floor_half: "\<lfloor>(1::rat) / 2\<rfloor> = 0"
  by (rule floor_unique) simp_all

lemma toFixed2_zero: "toFixed2 0 = 0"
  by (simp add: toFixed2_def floor_half)

lemma toFixed2_minus: "toFixed2 (- x) = - toFixed2 x"
proof -
  consider "x < 0" | "x = 0" | "0 < x" by linarith
  then show ?thesis
  proof cases
    case 1
    then show ?thesis by (simp add: toFixed2_def)
  next
    case 2
    then show ?thesis by (simp add: toFixed2_zero)
  next
    case 3
    then have "\<not> x < 0" by simp
    with 3 show ?thesis by (simp add: toFixed2_def)
  qed
qed

lemma toFixed2_hundredths: "toFixed2 (of_int n / 100) = of_int n / 100"
proof -
  have f: "\<lfloor>(of_int k :: rat) + 1 / 2\<rfloor> = k" for k :: int
    by (simp add: floor_unique)
  show ?thesis
  proof (cases "n < 0")
    case True
    then have neg: "(of_int n :: rat) / 100 < 0" by simp
    have "- ((of_int n :: rat) / 100) * 100 + 1 / 2 = of_int (- n) + 1 / 2" by simp
    then have "\<lfloor>- ((of_int n :: rat) / 100) * 100 + 1 / 2\<rfloor> = - n"
      using f [of "- n"] by simp
    then show ?thesis using neg unfolding toFixed2_def by simp
  next
    case False
    then have pos: "\<not> (of_int n :: rat) / 100 < 0" by simp
    have "(of_int n :: rat) / 100 * 100 + 1 / 2 = of_int n + 1 / 2" by simp
    then have "\<lfloor>(of_int n :: rat) / 100 * 100 + 1 / 2\<rfloor> = n"
      using f [of n] by simp
    then show ?thesis using pos unfolding toFixed2_def by simp
  qed
qed

lemma is_2dec_iff: "is_2dec (Num q) \<longleftrightarrow> (\<exists>n::int. q = of_int n / 100)"
proof
  assume "is_2dec (Num q)"
  then have e: "of_int \<lfloor>q * 100\<rfloor> = q * 100" by (simp only: is_2dec.simps)
  have "q = q * 100 / 100" by simp
  then have "q = of_int \<lfloor>q * 100\<rfloor> / 100" by (simp only: e)
  then show "\<exists>n::int. q = of_int n / 100" ..
next
  assume "\<exists>n::int. q = of_int n / 100"
  then obtain n :: int where "q = of_int n / 100" ..
  then show "is_2dec (Num q)" by simp
qed

lemma toFixed2_is_hundredths: "\<exists>n::int. toFixed2 x = of_int n / 100"
proof (cases "x < 0")
  case True
  then have "toFixed2 x = of_int (- \<lfloor>- x * 100 + 1 / 2\<rfloor>) / 100"
    by (simp add: toFixed2_def)
  then show ?thesis ..
next
  case False
  then have "toFixed2 x = of_int \<lfloor>x * 100 + 1 / 2\<rfloor> / 100"
    by (simp add: toFixed2_def)
  then show ?thesis ..
qed

lemma is_2dec_round2:
  assumes "round2 a = Num q"
  shows "is_2dec (Num q)"
proof -
  from assms obtain x where "q = toFixed2 x" by (cases a) auto
  then have "\<exists>n::int. q = of_int n / 100" using toFixed2_is_hundredths by simp
  then show ?thesis by (simp only: is_2dec_iff)
qed

lemma is_2dec_rate:
  assumes "rate c t = Num q"
  shows "is_2dec (Num q)"
proof (cases "jgt t (Num 0)")
  case True
  with assms show ?thesis using is_2dec_round2 by (simp add: rate_def)
next
  case False
  with assms have "q = 0" by (simp add: rate_def)
  then show ?thesis by simp
qed

lemma jsub_swap: "jsub a b = jneg (jsub b a)"
  by (cases a; cases b) simp_all

lemma round2_jneg: "round2 (jneg a) = jneg (round2 a)"
  by (cases a) (simp_all add: toFixed2_minus)

lemma round2_jsub_swap: "round2 (jsub a b) = jneg (round2 (jsub b a))"
  by (subst jsub_swap) (rule round2_jneg)

lemma jeq_Num0: "jeq a (Num 0) \<longleftrightarrow> a = Num 0"
  by (cases a) simp_all

lemma round2_jsub_same: "jeq a b \<Longrightarrow> round2 (jsub b a) = Num 0"
  by (cases a; cases b) (simp_all add: toFixed2_zero)

lemma round2_drop:
  assumes "is_2dec a" "is_2dec b" "jgt a b"
  shows "jgt (Num 0) (round2 (jsub b a))"
proof -
  from assms(3) obtain x y where a: "a = Num x" and b: "b = Num y" and gt: "y < x"
    by (cases a; cases b) simp_all
  from assms(1,2) obtain n m :: int where x: "x = of_int n / 100" and y: "y = of_int m / 100"
    unfolding a b is_2dec_iff by blast
  have "y - x = of_int (m - n) / 100" by (simp add: x y diff_divide_distrib)
  then have "toFixed2 (y - x) = y - x" by (simp only: toFixed2_hundredths)
  then show ?thesis using gt by (simp add: a b)
qed

subsection \<open>The scalar fields\<close>

lemma cmp_deltaLineRate_eq:
  "cmp_deltaLineRate (compareResults b c opts) = round2 (jsub (agg_lineRate c) (agg_lineRate b))"
  by (simp add: compareResults_def Let_def)

lemma cmp_deltaBranchRate_eq:
  "cmp_deltaBranchRate (compareResults b c opts) =
     round2 (jsub (agg_branchRate c) (agg_branchRate b))"
  by (simp add: compareResults_def Let_def)

lemma cmp_improvement_eq:
  "cmp_improvement (compareResults b c opts) =
     (jgt (cmp_deltaLineRate (compareResults b c opts)) (Num 0)
      \<or> (cmp_deltaLineRate (compareResults b c opts) = Num 0
          \<and> jgt (cmp_deltaBranchRate (compareResults b c opts)) (Num 0)))"
  by (simp add: compareResults_def Let_def jeq_Num0)

lemma jgt_asym: "jgt (Num 0) a \<Longrightarrow> \<not> jgt a (Num 0) \<and> a \<noteq> Num 0"
  by (cases a) simp_all

lemma agg_rates_2dec:
  "agg_lineRate (aggregateResults rs) = Num q \<Longrightarrow> is_2dec (Num q)"
  using is_2dec_rate by (simp add: aggregateResults_def Let_def)

text \<open>
  C5. The improvement flag of a comparison is true exactly when the rounded line-rate delta is
  positive, or it is zero and the rounded branch-rate delta is positive, the deltas being the
  rounded differences current minus base. A negative line-rate delta makes the flag false
  whatever the branch delta is; and for summaries produced by the aggregation, whose rates have
  two decimals, any current line rate below the base line rate makes it false.
\<close>

theorem improvement_iff_line_then_branch:
  "cmp_improvement (compareResults b c opts) =
     (jgt (cmp_deltaLineRate (compareResults b c opts)) (Num 0)
      \<or> (cmp_deltaLineRate (compareResults b c opts) = Num 0
          \<and> jgt (cmp_deltaBranchRate (compareResults b c opts)) (Num 0)))
   \<and> cmp_deltaLineRate (compareResults b c opts) =
       round2 (jsub (agg_lineRate c) (agg_lineRate b))
   \<and> cmp_deltaBranchRate (compareResults b c opts) =
       round2 (jsub (agg_branchRate c) (agg_branchRate b))
   \<and> (jgt (Num 0) (cmp_deltaLineRate (compareResults b c opts)) \<longrightarrow>
        \<not> cmp_improvement (compareResults b c opts))
   \<and> (jgt (agg_lineRate (aggregateResults bs)) (agg_lineRate (aggregateResults cs)) \<longrightarrow>
        \<not> cmp_improvement (compareResults (aggregateResults bs) (aggregateResults cs) opts))"
proof -
  have neg: "jgt (Num 0) (cmp_deltaLineRate (compareResults b' c' opts)) \<Longrightarrow>
      \<not> cmp_improvement (compareResults b' c' opts)" for b' c'
    using jgt_asym by (subst cmp_improvement_eq) blast
  have "\<not> cmp_improvement (compareResults (aggregateResults bs) (aggregateResults cs) opts)"
    if gt: "jgt (agg_lineRate (aggregateResults bs)) (agg_lineRate (aggregateResults cs))"
  proof -
    from gt obtain x y where x: "agg_lineRate (aggregateResults bs) = Num x"
      and y: "agg_lineRate (aggregateResults cs) = Num y"
      by (cases "agg_lineRate (aggregateResults bs)"; cases "agg_lineRate (aggregateResults cs)")
         simp_all
    have "jgt (Num 0) (round2 (jsub (agg_lineRate (aggregateResults cs))
                                     (agg_lineRate (aggregateResults bs))))"
      using round2_drop [OF _ _ gt] agg_rates_2dec [OF x] agg_rates_2dec [OF y]
      by (simp only: x y)
    then show ?thesis
      using neg [of "aggregateResults bs" "aggregateResults cs"]
      unfolding cmp_deltaLineRate_eq by blast
  qed
  then show ?thesis
    using neg [of b c] cmp_improvement_eq [of b c opts]
    by (simp only: cmp_deltaLineRate_eq cmp_deltaBranchRate_eq) blast
qed

theorem improvement_iff_line_then_branch_witness:
  "jgt (Num 0) (cmp_deltaLineRate (compareResults (summary_of 80 50 []) (summary_of 79 90 []) None))
   \<and> jgt (cmp_deltaBranchRate (compareResults (summary_of 80 50 []) (summary_of 79 90 []) None))
          (Num 0)
   \<and> \<not> cmp_improvement (compareResults (summary_of 80 50 []) (summary_of 79 90 []) None)
   \<and> jgt (agg_lineRate (aggregateResults [doc_of_counts 10 10]))
          (agg_lineRate (aggregateResults [doc_of_counts 1 2]))
   \<and> \<not> cmp_improvement (compareResults (aggregateResults [doc_of_counts 10 10])
                                         (aggregateResults [doc_of_counts 1 2]) None)"
proof -
  have d: "cmp_deltaLineRate (compareResults (summary_of 80 50 []) (summary_of 79 90 []) None)
             = Num (- 1)"
    "cmp_deltaBranchRate (compareResults (summary_of 80 50 []) (summary_of 79 90 []) None)
             = Num 40"
    by code_simp+
  have g: "jgt (agg_lineRate (aggregateResults [doc_of_counts 10 10]))
               (agg_lineRate (aggregateResults [doc_of_counts 1 2]))"
    by code_simp
  note inst = improvement_iff_line_then_branch
      [of "summary_of 80 50 []" "summary_of 79 90 []" None "[doc_of_counts 10 10]"
          "[doc_of_counts 1 2]"]
  have l: "jgt (Num 0)
      (cmp_deltaLineRate (compareResults (summary_of 80 50 []) (summary_of 79 90 []) None))"
    and r: "jgt (cmp_deltaBranchRate
      (compareResults (summary_of 80 50 []) (summary_of 79 90 []) None)) (Num 0)"
    by (simp_all add: d)
  from inst l have 1:
    "\<not> cmp_improvement (compareResults (summary_of 80 50 []) (summary_of 79 90 []) None)"
    by blast
  from inst g have 2:
    "\<not> cmp_improvement (compareResults (aggregateResults [doc_of_counts 10 10])
                                         (aggregateResults [doc_of_counts 1 2]) None)"
    by blast
  show ?thesis using l r 1 2 g by blast
qed

subsection \<open>Files present on both sides\<close>

lemma last_with_path_ex: "p \<in> fc_path ` set fs \<Longrightarrow> \<exists>f. last_with_path p fs = Some f"
  using last_with_path_None_iff [of p fs] by (cases "last_with_path p fs") simp_all

lemma fcmp_deltas:
  "fcmp_deltaLineRate (compareFiles bf cf) = round2 (jsub (fc_lineRate cf) (fc_lineRate bf))"
  "fcmp_deltaBranchRate (compareFiles bf cf) = round2 (jsub (fc_branchRate cf) (fc_branchRate bf))"
  by (simp_all add: compareFiles_def)

lemma filesChanged_path_iff:
  assumes bf: "last_with_path p (agg_files b) = Some bf"
    and cf: "last_with_path p (agg_files c) = Some cf"
  shows "(\<exists>x \<in> set (cmp_filesChanged (compareResults b c opts)). fcmp_path x = p) \<longleftrightarrow>
           (round2 (jsub (fc_lineRate cf) (fc_lineRate bf)) \<noteq> Num 0
            \<or> round2 (jsub (fc_branchRate cf) (fc_branchRate bf)) \<noteq> Num 0)"
    and "compareFiles bf cf \<in> set (cmp_filesChanged (compareResults b c opts)) \<longleftrightarrow>
           (round2 (jsub (fc_lineRate cf) (fc_lineRate bf)) \<noteq> Num 0
            \<or> round2 (jsub (fc_branchRate cf) (fc_branchRate bf)) \<noteq> Num 0)"
proof -
  let ?ch = "round2 (jsub (fc_lineRate cf) (fc_lineRate bf)) \<noteq> Num 0
            \<or> round2 (jsub (fc_branchRate cf) (fc_branchRate bf)) \<noteq> Num 0"
  have p: "fc_path cf = p" using last_with_path_Some [OF cf] by simp
  have fwd: "?ch" if "x \<in> set (cmp_filesChanged (compareResults b c opts))" "fcmp_path x = p" for x
  proof -
    from that(1) obtain bf' cf' where b': "last_with_path (fc_path cf') (agg_files b) = Some bf'"
      and c': "last_with_path (fc_path cf') (agg_files c) = Some cf'"
      and x: "x = compareFiles bf' cf'"
      and ch: "fcmp_deltaLineRate x \<noteq> Num 0 \<or> fcmp_deltaBranchRate x \<noteq> Num 0"
      unfolding filesChanged_member by blast
    have "fc_path cf' = p" using that(2) by (simp add: x fcmp_path_compareFiles)
    with b' c' bf cf have "bf' = bf" "cf' = cf" by simp_all
    with ch show ?thesis by (simp add: x fcmp_deltas)
  qed
  have bwd: "compareFiles bf cf \<in> set (cmp_filesChanged (compareResults b c opts))" if ?ch
    unfolding filesChanged_member using bf cf that p by (auto simp: fcmp_deltas)
  show "(\<exists>x \<in> set (cmp_filesChanged (compareResults b c opts)). fcmp_path x = p) \<longleftrightarrow> ?ch"
    using fwd bwd fcmp_path_compareFiles [of bf cf] p by metis
  show "compareFiles bf cf \<in> set (cmp_filesChanged (compareResults b c opts)) \<longleftrightarrow> ?ch"
    using fwd [of "compareFiles bf cf"] bwd fcmp_path_compareFiles [of bf cf] p by metis
qed

lemma filesChanged_path_both:
  assumes "x \<in> set (cmp_filesChanged (compareResults b c opts))"
  shows "fcmp_path x \<in> fc_path ` set (agg_files b) \<and> fcmp_path x \<in> fc_path ` set (agg_files c)"
proof -
  from assms obtain bf cf where b: "last_with_path (fc_path cf) (agg_files b) = Some bf"
    and c: "last_with_path (fc_path cf) (agg_files c) = Some cf"
    and x: "x = compareFiles bf cf"
    unfolding filesChanged_member by blast
  have "fcmp_path x = fc_path cf" by (simp add: x fcmp_path_compareFiles)
  then show ?thesis
    using b c last_with_path_None_iff [of "fc_path cf"] by (metis option.distinct(1))
qed

text \<open>
  C6. For a path present in both summaries, with \<open>bf\<close> and \<open>cf\<close> the entries the comparator
  keeps for it, \<^verbatim>\<open>filesChanged\<close> has an entry for the path exactly when the rounded line-rate
  delta or the rounded branch-rate delta of the two entries is not zero, and that entry is
  \<^verbatim>\<open>compareFiles(bf, cf)\<close>. Entries with equal line rates and equal branch rates are left out
  whatever their counts are, and paths missing on one side never appear in \<^verbatim>\<open>filesChanged\<close>.
\<close>

theorem filesChanged_iff_rate_delta:
  "(p \<in> fc_path ` set (agg_files b) \<and> p \<in> fc_path ` set (agg_files c) \<longrightarrow>
      (\<exists>bf cf. last_with_path p (agg_files b) = Some bf
         \<and> last_with_path p (agg_files c) = Some cf
         \<and> ((\<exists>x \<in> set (cmp_filesChanged (compareResults b c opts)). fcmp_path x = p) \<longleftrightarrow>
              (round2 (jsub (fc_lineRate cf) (fc_lineRate bf)) \<noteq> Num 0
               \<or> round2 (jsub (fc_branchRate cf) (fc_branchRate bf)) \<noteq> Num 0))
         \<and> (compareFiles bf cf \<in> set (cmp_filesChanged (compareResults b c opts)) \<longleftrightarrow>
              (round2 (jsub (fc_lineRate cf) (fc_lineRate bf)) \<noteq> Num 0
               \<or> round2 (jsub (fc_branchRate cf) (fc_branchRate bf)) \<noteq> Num 0))
         \<and> (jeq (fc_lineRate bf) (fc_lineRate cf) \<and> jeq (fc_branchRate bf) (fc_branchRate cf) \<longrightarrow>
              \<not> (\<exists>x \<in> set (cmp_filesChanged (compareResults b c opts)). fcmp_path x = p))))
   \<and> ((\<exists>x \<in> set (cmp_filesChanged (compareResults b c opts)). fcmp_path x = p) \<longrightarrow>
        p \<in> fc_path ` set (agg_files b) \<and> p \<in> fc_path ` set (agg_files c))"
proof (intro conjI impI)
  assume "p \<in> fc_path ` set (agg_files b) \<and> p \<in> fc_path ` set (agg_files c)"
  then obtain bf cf where bf: "last_with_path p (agg_files b) = Some bf"
    and cf: "last_with_path p (agg_files c) = Some cf"
    using last_with_path_ex by blast
  note iff = filesChanged_path_iff [OF bf cf, of opts]
  have "\<not> (\<exists>x \<in> set (cmp_filesChanged (compareResults b c opts)). fcmp_path x = p)"
    if "jeq (fc_lineRate bf) (fc_lineRate cf) \<and> jeq (fc_branchRate bf) (fc_branchRate cf)"
    using that round2_jsub_same unfolding iff(1) by simp
  then show "\<exists>bf cf. last_with_path p (agg_files b) = Some bf
         \<and> last_with_path p (agg_files c) = Some cf
         \<and> ((\<exists>x \<in> set (cmp_filesChanged (compareResults b c opts)). fcmp_path x = p) \<longleftrightarrow>
              (round2 (jsub (fc_lineRate cf) (fc_lineRate bf)) \<noteq> Num 0
               \<or> round2 (jsub (fc_branchRate cf) (fc_branchRate bf)) \<noteq> Num 0))
         \<and> (compareFiles bf cf \<in> set (cmp_filesChanged (compareResults b c opts)) \<longleftrightarrow>
              (round2 (jsub (fc_lineRate cf) (fc_lineRate bf)) \<noteq> Num 0
               \<or> round2 (jsub (fc_branchRate cf) (fc_branchRate bf)) \<noteq> Num 0))
         \<and> (jeq (fc_lineRate bf) (fc_lineRate cf) \<and> jeq (fc_branchRate bf) (fc_branchRate cf) \<longrightarrow>
              \<not> (\<exists>x \<in> set (cmp_filesChanged (compareResults b c opts)). fcmp_path x = p))"
    using bf cf iff by blast
next
  assume "\<exists>x \<in> set (cmp_filesChanged (compareResults b c opts)). fcmp_path x = p"
  then show "p \<in> fc_path ` set (agg_files b)" using filesChanged_path_both by blast
next
  assume "\<exists>x \<in> set (cmp_filesChanged (compareResults b c opts)). fcmp_path x = p"
  then show "p \<in> fc_path ` set (agg_files c)" using filesChanged_path_both by blast
qed

theorem filesChanged_iff_rate_delta_witness:
  "''b'' \<in> fc_path ` set (agg_files sample_base)
   \<and> ''b'' \<in> fc_path ` set (agg_files sample_current)
   \<and> last_with_path ''b'' (agg_files sample_base) = Some (file_of_counts ''b'' 8 10)
   \<and> last_with_path ''b'' (agg_files sample_current) = Some (file_of_counts ''b'' 80 100)
   \<and> fc_statements (file_of_counts ''b'' 8 10) \<noteq> fc_statements (file_of_counts ''b'' 80 100)
   \<and> \<not> (\<exists>x \<in> set (cmp_filesChanged (compareResults sample_base sample_current None)).
            fcmp_path x = ''b'')
   \<and> (\<exists>x \<in> set (cmp_filesChanged (compareResults sample_base sample_current None)).
            fcmp_path x = ''a'')"
proof -
  have mem: "''b'' \<in> fc_path ` set (agg_files sample_base)"
    "''b'' \<in> fc_path ` set (agg_files sample_current)"
    "''a'' \<in> fc_path ` set (agg_files sample_base)"
    "''a'' \<in> fc_path ` set (agg_files sample_current)"
    by (simp_all add: sample_base_def sample_current_def summary_of_def file_of_counts_def)
  have lb: "last_with_path ''b'' (agg_files sample_base) = Some (file_of_counts ''b'' 8 10)"
    "last_with_path ''b'' (agg_files sample_current) = Some (file_of_counts ''b'' 80 100)"
    "last_with_path ''a'' (agg_files sample_base) = Some (file_of_counts ''a'' 1 10)"
    "last_with_path ''a'' (agg_files sample_current) = Some (file_of_counts ''a'' 85 100)"
    by (simp_all add: sample_base_def sample_current_def summary_of_def file_of_counts_def
        last_with_path_def)
  have eqr: "jeq (fc_lineRate (file_of_counts ''b'' 8 10)) (fc_lineRate (file_of_counts ''b'' 80 100))"
    "jeq (fc_branchRate (file_of_counts ''b'' 8 10)) (fc_branchRate (file_of_counts ''b'' 80 100))"
    by code_simp+
  have ne: "round2 (jsub (fc_lineRate (file_of_counts ''a'' 85 100))
                         (fc_lineRate (file_of_counts ''a'' 1 10))) \<noteq> Num 0"
    by code_simp
  have cnt: "fc_statements (file_of_counts ''b'' 8 10) \<noteq> fc_statements (file_of_counts ''b'' 80 100)"
    by (simp add: file_of_counts_def)
  have nb: "\<not> (\<exists>x \<in> set (cmp_filesChanged (compareResults sample_base sample_current None)).
            fcmp_path x = ''b'')"
    using filesChanged_iff_rate_delta [of "''b''" sample_base sample_current None] mem eqr
    unfolding lb by blast
  have ya: "\<exists>x \<in> set (cmp_filesChanged (compareResults sample_base sample_current None)).
            fcmp_path x = ''a''"
    using filesChanged_iff_rate_delta [of "''a''" sample_base sample_current None] mem ne
    unfolding lb by blast
  show ?thesis using mem lb cnt nb ya by blast
qed

subsection \<open>Swapping base and current\<close>

lemma cmp_count_deltas:
  "cmp_deltaTotalStatements (compareResults b c opts) =
     jsub (agg_totalStatements c) (agg_totalStatements b)"
  "cmp_deltaCoveredStatements (compareResults b c opts) =
     jsub (agg_coveredStatements c) (agg_coveredStatements b)"
  "cmp_deltaTotalConditionals (compareResults b c opts) =
     jsub (agg_totalConditionals c) (agg_totalConditionals b)"
  "cmp_deltaCoveredConditionals (compareResults b c opts) =
     jsub (agg_coveredConditionals c) (agg_coveredConditionals b)"
  "cmp_deltaTotalMethods (compareResults b c opts) =
     jsub (agg_totalMethods c) (agg_totalMethods b)"
  "cmp_deltaCoveredMethods (compareResults b c opts) =
     jsub (agg_coveredMethods c) (agg_coveredMethods b)"
  by (simp_all add: compareResults_def Let_def)

lemma cmp_detail_deltas:
  "cmp_deltaFiles (compareResults b c opts) =
     jsub (or_num (agg_totalFiles c) (Num (of_nat (length (agg_files c)))))
          (or_num (agg_totalFiles b) (Num (of_nat (length (agg_files b)))))"
  "cmp_deltaLines (compareResults b c opts) =
     jsub (or_num (agg_totalLines c) (Num 0)) (or_num (agg_totalLines b) (Num 0))"
  "cmp_deltaBranches (compareResults b c opts) =
     jsub (or_num (agg_totalBranches c) (Num 0)) (or_num (agg_totalBranches b) (Num 0))"
  "cmp_deltaHits (compareResults b c opts) =
     jsub (or_num (agg_totalHits c) (Num 0)) (or_num (agg_totalHits b) (Num 0))"
  "cmp_deltaMisses (compareResults b c opts) =
     jsub (or_num (agg_totalMisses c) (Num 0)) (or_num (agg_totalMisses b) (Num 0))"
  "cmp_deltaPartials (compareResults b c opts) =
     jsub (or_num (agg_totalPartials c) (Num 0)) (or_num (agg_totalPartials b) (Num 0))"
  by (simp_all add: compareResults_def Let_def)

text \<open>
  C7. Comparing \<open>A\<close> against \<open>B\<close> and \<open>B\<close> against \<open>A\<close> gives scalar deltas that are negations
  of each other, for the two rates, the six counters and the six detailed metrics; and the
  files added in one direction are the files removed in the other, as lists and so as sets.
\<close>

theorem compareResults_swap:
  "cmp_deltaLineRate (compareResults B A o2) = jneg (cmp_deltaLineRate (compareResults A B o1))
   \<and> cmp_deltaBranchRate (compareResults B A o2) =
       jneg (cmp_deltaBranchRate (compareResults A B o1))
   \<and> cmp_deltaTotalStatements (compareResults B A o2) =
       jneg (cmp_deltaTotalStatements (compareResults A B o1))
   \<and> cmp_deltaCoveredStatements (compareResults B A o2) =
       jneg (cmp_deltaCoveredStatements (compareResults A B o1))
   \<and> cmp_deltaTotalConditionals (compareResults B A o2) =
       jneg (cmp_deltaTotalConditionals (compareResults A B o1))
   \<and> cmp_deltaCoveredConditionals (compareResults B A o2) =
       jneg (cmp_deltaCoveredConditionals (compareResults A B o1))
   \<and> cmp_deltaTotalMethods (compareResults B A o2) =
       jneg (cmp_deltaTotalMethods (compareResults A B o1))
   \<and> cmp_deltaCoveredMethods (compareResults B A o2) =
       jneg (cmp_deltaCoveredMethods (compareResults A B o1))
   \<and> cmp_deltaFiles (compareResults B A o2) = jneg (cmp_deltaFiles (compareResults A B o1))
   \<and> cmp_deltaLines (compareResults B A o2) = jneg (cmp_deltaLines (compareResults A B o1))
   \<and> cmp_deltaBranches (compareResults B A o2) =
       jneg (cmp_deltaBranches (compareResults A B o1))
   \<and> cmp_deltaHits (compareResults B A o2) = jneg (cmp_deltaHits (compareResults A B o1))
   \<and> cmp_deltaMisses (compareResults B A o2) = jneg (cmp_deltaMisses (compareResults A B o1))
   \<and> cmp_deltaPartials (compareResults B A o2) =
       jneg (cmp_deltaPartials (compareResults A B o1))
   \<and> cmp_filesAdded (compareResults A B o1) = cmp_filesRemoved (compareResults B A o2)
   \<and> cmp_filesRemoved (compareResults A B o1) = cmp_filesAdded (compareResults B A o2)
   \<and> set (cmp_filesAdded (compareResults A B o1)) = set (cmp_filesRemoved (compareResults B A o2))
   \<and> set (cmp_filesRemoved (compareResults A B o1)) = set (cmp_filesAdded (compareResults B A o2))"
proof -
  have rates:
    "cmp_deltaLineRate (compareResults B A o2) = jneg (cmp_deltaLineRate (compareResults A B o1))"
    "cmp_deltaBranchRate (compareResults B A o2) =
       jneg (cmp_deltaBranchRate (compareResults A B o1))"
    unfolding cmp_deltaLineRate_eq cmp_deltaBranchRate_eq by (rule round2_jsub_swap)+
  have counts:
    "cmp_deltaTotalStatements (compareResults B A o2) =
       jneg (cmp_deltaTotalStatements (compareResults A B o1))"
    "cmp_deltaCoveredStatements (compareResults B A o2) =
       jneg (cmp_deltaCoveredStatements (compareResults A B o1))"
    "cmp_deltaTotalConditionals (compareResults B A o2) =
       jneg (cmp_deltaTotalConditionals (compareResults A B o1))"
    "cmp_deltaCoveredConditionals (compareResults B A o2) =
       jneg (cmp_deltaCoveredConditionals (compareResults A B o1))"
    "cmp_deltaTotalMethods (compareResults B A o2) =
       jneg (cmp_deltaTotalMethods (compareResults A B o1))"
    "cmp_deltaCoveredMethods (compareResults B A o2) =
       jneg (cmp_deltaCoveredMethods (compareResults A B o1))"
    unfolding cmp_count_deltas by (rule jsub_swap)+
  have details:
    "cmp_deltaFiles (compareResults B A o2) = jneg (cmp_deltaFiles (compareResults A B o1))"
    "cmp_deltaLines (compareResults B A o2) = jneg (cmp_deltaLines (compareResults A B o1))"
    "cmp_deltaBranches (compareResults B A o2) =
       jneg (cmp_deltaBranches (compareResults A B o1))"
    "cmp_deltaHits (compareResults B A o2) = jneg (cmp_deltaHits (compareResults A B o1))"
    "cmp_deltaMisses (compareResults B A o2) = jneg (cmp_deltaMisses (compareResults A B o1))"
    "cmp_deltaPartials (compareResults B A o2) =
       jneg (cmp_deltaPartials (compareResults A B o1))"
    unfolding cmp_detail_deltas by (rule jsub_swap)+
  have files:
    "cmp_filesAdded (compareResults A B o1) = cmp_filesRemoved (compareResults B A o2)"
    "cmp_filesRemoved (compareResults A B o1) = cmp_filesAdded (compareResults B A o2)"
    by (simp_all only: cmp_filesRemoved_eq cmp_filesAdded_eq)
  show ?thesis
    using rates counts details files by simp
qed

subsection \<open>Several entries with one path\<close>

lemma agg_files_concat: "agg_files (aggregateResults rs) = concat (map cr_files rs)"
  by (simp add: aggregateResults_sums)

text \<open>
  C10. The lookup maps of \<^verbatim>\<open>compareResults\<close> are keyed by path, a later entry replacing an
  earlier one: a lookup gives the last entry with that path. Hence \<^verbatim>\<open>filesAdded\<close>,
  \<^verbatim>\<open>filesRemoved\<close> and \<^verbatim>\<open>filesChanged\<close> hold at most one entry per path, every added or
  removed file is the last entry of its path in its summary, and every changed file compares
  the last entries of its path; the aggregation itself keeps every file of every document.
\<close>

theorem compareResults_last_entry_per_path:
  "Map_get (buildFileMap fs) p = last_with_path p fs
   \<and> distinct (map fst (buildFileMap fs))
   \<and> distinct (map fc_path (cmp_filesAdded (compareResults b c opts)))
   \<and> distinct (map fc_path (cmp_filesRemoved (compareResults b c opts)))
   \<and> distinct (map fcmp_path (cmp_filesChanged (compareResults b c opts)))
   \<and> (\<forall>f \<in> set (cmp_filesAdded (compareResults b c opts)).
         last_with_path (fc_path f) (agg_files c) = Some f)
   \<and> (\<forall>f \<in> set (cmp_filesRemoved (compareResults b c opts)).
         last_with_path (fc_path f) (agg_files b) = Some f)
   \<and> (\<forall>x \<in> set (cmp_filesChanged (compareResults b c opts)).
         \<exists>bf cf. last_with_path (fcmp_path x) (agg_files b) = Some bf
           \<and> last_with_path (fcmp_path x) (agg_files c) = Some cf
           \<and> x = compareFiles bf cf)
   \<and> agg_files (aggregateResults rs) = concat (map cr_files rs)"
proof -
  have ch: "\<exists>bf cf. last_with_path (fcmp_path x) (agg_files b) = Some bf
           \<and> last_with_path (fcmp_path x) (agg_files c) = Some cf
           \<and> x = compareFiles bf cf"
    if "x \<in> set (cmp_filesChanged (compareResults b c opts))" for x
  proof -
    from that obtain bf cf where b: "last_with_path (fc_path cf) (agg_files b) = Some bf"
      and c: "last_with_path (fc_path cf) (agg_files c) = Some cf"
      and x: "x = compareFiles bf cf"
      unfolding filesChanged_member by blast
    have "fcmp_path x = fc_path cf" by (simp add: x fcmp_path_compareFiles)
    then show ?thesis using b c x by auto
  qed
  show ?thesis
    using Map_get_buildFileMap [of fs p] distinct_buildFileMap [of fs]
      distinct_filesAdded [of b c opts] distinct_filesRemoved [of b c opts]
      distinct_filesChanged [of b c opts] agg_files_concat [of rs] ch
    by (simp add: filesAdded_member filesRemoved_member)
qed

theorem compareResults_last_entry_per_path_witness:
  "cmp_filesAdded (compareResults sample_base sample_current None) = [file_of_counts ''c'' 5 10]
   \<and> file_of_counts ''c'' 9 10 \<in> set (agg_files sample_current)
   \<and> last_with_path ''c'' (agg_files sample_current) = Some (file_of_counts ''c'' 5 10)
   \<and> map fcmp_path (cmp_filesChanged (compareResults sample_base sample_current None)) = [''a'']
   \<and> (\<exists>cf. last_with_path ''a'' (agg_files sample_base) = Some (file_of_counts ''a'' 1 10)
          \<and> cmp_filesChanged (compareResults sample_base sample_current None) =
              [compareFiles (file_of_counts ''a'' 1 10) cf])
   \<and> cmp_filesRemoved (compareResults sample_base sample_current None) = []"
proof -
  let ?r = "compareResults sample_base sample_current None"
  note inst = compareResults_last_entry_per_path
    [of "agg_files sample_base" "''a''" sample_base sample_current None "[]"]
  have added: "cmp_filesAdded ?r = [file_of_counts ''c'' 5 10]" by code_simp
  have removed: "cmp_filesRemoved ?r = []" by code_simp
  have paths: "map fcmp_path (cmp_filesChanged ?r) = [''a'']" by code_simp
  have old: "file_of_counts ''c'' 9 10 \<in> set (agg_files sample_current)"
    by (simp add: sample_current_def summary_of_def)
  have cpath: "fc_path (file_of_counts ''c'' 5 10) = ''c''" by (simp add: file_of_counts_def)
  from inst have "\<forall>f \<in> set (cmp_filesAdded ?r). last_with_path (fc_path f) (agg_files sample_current) = Some f"
    by blast
  then have lastc: "last_with_path ''c'' (agg_files sample_current) = Some (file_of_counts ''c'' 5 10)"
    unfolding added using cpath by simp
  from paths obtain x where x: "cmp_filesChanged ?r = [x]" and xp: "fcmp_path x = ''a''"
    by auto
  from inst have "\<forall>x \<in> set (cmp_filesChanged ?r).
         \<exists>bf cf. last_with_path (fcmp_path x) (agg_files sample_base) = Some bf
           \<and> last_with_path (fcmp_path x) (agg_files sample_current) = Some cf
           \<and> x = compareFiles bf cf"
    by blast
  then obtain bf cf where bf: "last_with_path ''a'' (agg_files sample_base) = Some bf"
    and xe: "x = compareFiles bf cf"
    unfolding x using xp by auto
  from inst have "Map_get (buildFileMap (agg_files sample_base)) ''a'' =
      last_with_path ''a'' (agg_files sample_base)"
    by blast
  moreover have "Map_get (buildFileMap (agg_files sample_base)) ''a'' = Some (file_of_counts ''a'' 1 10)"
    by code_simp
  ultimately have "bf = file_of_counts ''a'' 1 10" using bf by simp
  then have "\<exists>cf. last_with_path ''a'' (agg_files sample_base) = Some (file_of_counts ''a'' 1 10)
          \<and> cmp_filesChanged ?r = [compareFiles (file_of_counts ''a'' 1 10) cf]"
    using bf x xe by blast
  then show ?thesis using added removed paths old lastc by blast
qed

section \<open>Properties of the artifact manager\<close>

subsection \<open>Computations\<close>

lemma bind_io_Inr: "snd m = Inr x \<Longrightarrow> bind_io m f = (fst m @ fst (f x), snd (f x))"
  by (simp add: bind_io_def)


lemma bind_io_pair [simp]:
  "bind_io (evs, Inr x) f = (evs @ fst (f x), snd (f x))"
  "bind_io (evs, Inl e) f = (evs, Inl e)"
  by (simp_all add: bind_io_def)

lemma bind_io_emit [simp]: "bind_io (emit e) f = (e # fst (f ()), snd (f ()))"
  by (simp add: emit_def)

lemma bind_io_ok [simp]: "bind_io (ok x) f = f x"
  by (simp add: ok_def)

lemma catch_Inr: "snd body = Inr x \<Longrightarrow> catch body h = body"
  by (simp add: catch_def)

lemma catch_Inl: "snd body = Inl e \<Longrightarrow> catch body h = (fst body @ fst (h e), snd (h e))"
  by (simp add: catch_def)

lemma catch_returns:
  assumes "\<And>e. \<exists>y. snd (h e) = Inr y"
  shows "\<exists>y. snd (catch body h) = Inr y"
proof (cases "snd body")
  case (Inl e)
  then show ?thesis using assms [of e] by (simp add: catch_Inl)
next
  case (Inr x)
  then show ?thesis by (simp add: catch_Inr)
qed

subsection \<open>Uploads\<close>

lemma uploadResults_returns: "snd (uploadResults w results branchName name) = Inr ()"
  using catch_returns [of "\<lambda>error. emit (Warning (''Failed to upload test artifact: '' @ message_of error))"
      "uploadResults_body w results branchName name"]
  by (simp add: uploadResults_def emit_def)

lemma uploadCoverageResults_returns:
  "snd (uploadCoverageResults w results branchName flags name) = Inr ()"
  using catch_returns [of "\<lambda>error. emit (Warning (''Failed to upload coverage artifact: '' @ message_of error))"
      "uploadCoverageResults_body w results branchName flags name"]
  by (simp add: uploadCoverageResults_def emit_def)

lemma uploadResults_warns:
  assumes "snd (uploadResults_body w results branchName name) = Inl e"
  shows "fst (uploadResults w results branchName name) =
           fst (uploadResults_body w results branchName name)
           @ [Warning (''Failed to upload test artifact: '' @ message_of e)]"
  by (simp add: uploadResults_def catch_Inl [OF assms] emit_def)

lemma uploadCoverageResults_warns:
  assumes "snd (uploadCoverageResults_body w results branchName flags name) = Inl e"
  shows "fst (uploadCoverageResults w results branchName flags name) =
           fst (uploadCoverageResults_body w results branchName flags name)
           @ [Warning (''Failed to upload coverage artifact: '' @ message_of e)]"
  by (simp add: uploadCoverageResults_def catch_Inl [OF assms] emit_def)

lemma writeAndUpload_store_fails:
  assumes "mkdtempSync w (path_join (tmpdir w) dirPrefix) = Inr d"
    and "writeFileSync w (path_join d fileName) = None"
    and "uploadArtifact w artifactName [path_join d fileName] d = Inl e"
  shows "snd (writeAndUpload w artifactName dirPrefix fileName label results) = Inl e"
  using assms by (simp add: writeAndUpload_def outcome_def call_def Let_def)

lemma uploadCoverageResults_body_store_fails:
  assumes "mkdtempSync w (path_join (tmpdir w) ''codecov-coverage-'') = Inr d"
    and "writeFileSync w (path_join d ''coverage-results.json'') = None"
    and "uploadArtifact w (getArtifactName w branchName Coverage flags name)
           [path_join d ''coverage-results.json''] d = Inl e"
  shows "snd (uploadCoverageResults_body w results branchName flags name) = Inl e"
proof -
  have "snd (bind_io c (\<lambda>_. writeAndUpload w (getArtifactName w branchName Coverage flags name)
            ''codecov-coverage-'' ''coverage-results.json'' ''Coverage''
            (AggregatedCoverageResults_props results))) = Inl e"
    if "snd c = Inr ()" for c :: "unit io"
    using writeAndUpload_store_fails [OF assms] that by (simp add: bind_io_Inr)
  then show ?thesis
    by (simp add: uploadCoverageResults_body_def Let_def ok_def emit_def
        split: option.splits)
qed

lemma uploadResults_body_store_fails:
  assumes "mkdtempSync w (path_join (tmpdir w) ''codecov-test-'') = Inr d"
    and "writeFileSync w (path_join d ''test-results.json'') = None"
    and "uploadArtifact w (getArtifactName w branchName Test None name)
           [path_join d ''test-results.json''] d = Inl e"
  shows "snd (uploadResults_body w results branchName name) = Inl e"
  using writeAndUpload_store_fails [OF assms]
  by (simp add: uploadResults_body_def Let_def)

lemma persistAndCompare_result:
  "snd (persistAndCompare m w aggregatedResults currentBranch baseBranch) =
     snd (attachComparison m w aggregatedResults baseBranch)"
  using uploadCoverageResults_returns [of w aggregatedResults currentBranch None None]
  by (simp add: persistAndCompare_def bind_io_Inr)

text \<open>
  C4. \<^verbatim>\<open>uploadResults\<close> and \<^verbatim>\<open>uploadCoverageResults\<close> return normally on every platform,
  whatever fails inside them. When their body throws, in particular when the artifact store
  rejects the upload, the last thing they do is to log the warning that carries the message of
  the exception. The summary that \<^verbatim>\<open>processCoverage\<close> goes on with and returns, comparison
  included, is the one it would have without the upload step, so a failed upload changes
  nothing in it.
\<close>

theorem upload_failure_swallowed:
  "snd (uploadResults w results branchName name) = Inr ()
   \<and> snd (uploadCoverageResults w cov branchName flags name) = Inr ()
   \<and> (snd (uploadResults_body w results branchName name) = Inl e \<longrightarrow>
        fst (uploadResults w results branchName name) =
          fst (uploadResults_body w results branchName name)
          @ [Warning (''Failed to upload test artifact: '' @ message_of e)])
   \<and> (snd (uploadCoverageResults_body w cov branchName flags name) = Inl e \<longrightarrow>
        fst (uploadCoverageResults w cov branchName flags name) =
          fst (uploadCoverageResults_body w cov branchName flags name)
          @ [Warning (''Failed to upload coverage artifact: '' @ message_of e)])
   \<and> (mkdtempSync w (path_join (tmpdir w) ''codecov-test-'') = Inr d
        \<and> writeFileSync w (path_join d ''test-results.json'') = None
        \<and> uploadArtifact w (getArtifactName w branchName Test None name)
             [path_join d ''test-results.json''] d = Inl e \<longrightarrow>
        snd (uploadResults_body w results branchName name) = Inl e)
   \<and> (mkdtempSync w (path_join (tmpdir w) ''codecov-coverage-'') = Inr d
        \<and> writeFileSync w (path_join d ''coverage-results.json'') = None
        \<and> uploadArtifact w (getArtifactName w branchName Coverage flags name)
             [path_join d ''coverage-results.json''] d = Inl e \<longrightarrow>
        snd (uploadCoverageResults_body w cov branchName flags name) = Inl e)
   \<and> snd (persistAndCompare m wc cov currentBranch baseBranch) =
       snd (attachComparison m wc cov baseBranch)"
proof (intro conjI impI)
  show "snd (uploadResults w results branchName name) = Inr ()"
    by (rule uploadResults_returns)
  show "snd (uploadCoverageResults w cov branchName flags name) = Inr ()"
    by (rule uploadCoverageResults_returns)
  show "fst (uploadResults w results branchName name) =
          fst (uploadResults_body w results branchName name)
          @ [Warning (''Failed to upload test artifact: '' @ message_of e)]"
    if "snd (uploadResults_body w results branchName name) = Inl e"
    using that by (rule uploadResults_warns)
  show "fst (uploadCoverageResults w cov branchName flags name) =
          fst (uploadCoverageResults_body w cov branchName flags name)
          @ [Warning (''Failed to upload coverage artifact: '' @ message_of e)]"
    if "snd (uploadCoverageResults_body w cov branchName flags name) = Inl e"
    using that by (rule uploadCoverageResults_warns)
  show "snd (uploadResults_body w results branchName name) = Inl e"
    if "mkdtempSync w (path_join (tmpdir w) ''codecov-test-'') = Inr d
        \<and> writeFileSync w (path_join d ''test-results.json'') = None
        \<and> uploadArtifact w (getArtifactName w branchName Test None name)
             [path_join d ''test-results.json''] d = Inl e"
    using that uploadResults_body_store_fails [of w d branchName name e results] by simp
  show "snd (uploadCoverageResults_body w cov branchName flags name) = Inl e"
    if "mkdtempSync w (path_join (tmpdir w) ''codecov-coverage-'') = Inr d
        \<and> writeFileSync w (path_join d ''coverage-results.json'') = None
        \<and> uploadArtifact w (getArtifactName w branchName Coverage flags name)
             [path_join d ''coverage-results.json''] d = Inl e"
    using that uploadCoverageResults_body_store_fails [of w d branchName flags name e cov]
    by simp
  show "snd (persistAndCompare m wc cov currentBranch baseBranch) =
       snd (attachComparison m wc cov baseBranch)"
    by (rule persistAndCompare_result)
qed


theorem upload_failure_swallowed_witness:
  "mkdtempSync (outage_world :: AggregatedCoverageResults world)
       (path_join (tmpdir (outage_world :: AggregatedCoverageResults world)) ''codecov-coverage-'')
     = Inr ''/tmp/codecov-coverage-XXXXXX''
   \<and> snd (uploadCoverageResults_body (outage_world :: AggregatedCoverageResults world)
            sample_current ''feature'' None None) = Inl (Error ''network error'')
   \<and> snd (uploadCoverageResults (outage_world :: AggregatedCoverageResults world)
            sample_current ''feature'' None None) = Inr ()
   \<and> last (fst (uploadCoverageResults (outage_world :: AggregatedCoverageResults world)
            sample_current ''feature'' None None))
       = Warning ''Failed to upload coverage artifact: network error''
   \<and> snd (uploadResults_body (outage_world :: AggregatedCoverageResults world)
            sample_test_results ''feature'' None) = Inl (Error ''network error'')
   \<and> last (fst (uploadResults (outage_world :: AggregatedCoverageResults world)
            sample_test_results ''feature'' None))
       = Warning ''Failed to upload test artifact: network error''
   \<and> snd (persistAndCompare sample_manager outage_world sample_current ''feature'' ''main'')
       = Inr sample_current"
proof -
  let ?w = "outage_world :: AggregatedCoverageResults world"
  let ?d = "''/tmp/codecov-coverage-XXXXXX''"
  let ?t = "''/tmp/codecov-test-XXXXXX''"
  note inst = upload_failure_swallowed [where w = ?w and results = sample_test_results
      and branchName = "''feature''" and name = None and cov = sample_current and flags = None
      and e = "Error ''network error''" and m = sample_manager and wc = ?w
      and currentBranch = "''feature''" and baseBranch = "''main''"]
  have dir: "mkdtempSync ?w (path_join (tmpdir ?w) ''codecov-coverage-'') = Inr ?d"
    "mkdtempSync ?w (path_join (tmpdir ?w) ''codecov-test-'') = Inr ?t"
    by (simp_all add: outage_world_def quiet_world_def path_join_def)
  have wr: "writeFileSync ?w p = None" for p
    by (simp add: outage_world_def quiet_world_def)
  have up: "uploadArtifact ?w n fs r = Inl (Error ''network error'')" for n fs r
    by (simp add: outage_world_def quiet_world_def)
  have cb: "snd (uploadCoverageResults_body ?w sample_current ''feature'' None None)
      = Inl (Error ''network error'')"
    using inst [where d = ?d] dir wr up by blast
  have tb: "snd (uploadResults_body ?w sample_test_results ''feature'' None)
      = Inl (Error ''network error'')"
    using inst [where d = ?t] dir wr up by blast
  have cw: "last (fst (uploadCoverageResults ?w sample_current ''feature'' None None))
      = Warning ''Failed to upload coverage artifact: network error''"
    using inst [where d = ?d] cb by simp
  have tw: "last (fst (uploadResults ?w sample_test_results ''feature'' None))
      = Warning ''Failed to upload test artifact: network error''"
    using inst [where d = ?d] tb by simp
  have ret: "snd (uploadCoverageResults ?w sample_current ''feature'' None None) = Inr ()"
    using inst [where d = ?d] by blast
  have att: "snd (attachComparison sample_manager ?w sample_current ''main'') = Inr sample_current"
    by (simp add: attachComparison_def downloadBaseCoverageResults_def
        downloadBaseCoverageResults_body_def Let_def call_def scanBaseRuns_def
        outage_world_def quiet_world_def catch_def ok_def emit_def)
  have pc: "snd (persistAndCompare sample_manager ?w sample_current ''feature'' ''main'')
      = Inr sample_current"
    using inst [where d = ?d] att by simp
  show ?thesis using dir(1) cb ret cw tb tw pc by blast
qed

subsection \<open>The persisted payload\<close>

lemma JSON_props_keys: "fst ` set (JSON_props ps) \<subseteq> fst ` set ps"
  by (induction ps) (auto split: option.splits)

lemma prop_get_JSON_props_filter:
  "P k \<Longrightarrow> prop_get (JSON_props (filter (\<lambda>p. P (fst p)) ps)) k = prop_get (JSON_props ps) k"
  by (induction ps) (auto simp: prop_get_def split: option.splits)

lemma payload_without_comparison:
  "prop_get (JSON_props (omit_comparison ps)) ''comparison'' = None"
proof -
  have "''comparison'' \<notin> fst ` set (omit_comparison ps)"
    by (auto simp: omit_comparison_def)
  then have "''comparison'' \<notin> fst ` set (JSON_props (omit_comparison ps))"
    using JSON_props_keys by blast
  then show ?thesis by (simp add: prop_get_def map_of_eq_None_iff)
qed

lemma payload_other_fields:
  "k \<noteq> ''comparison'' \<Longrightarrow>
     prop_get (JSON_props (omit_comparison ps)) k = prop_get (JSON_props ps) k"
  unfolding omit_comparison_def
  by (rule prop_get_JSON_props_filter [of "\<lambda>k. k \<noteq> ''comparison''"])

lemma omit_is_undefined:
  "JSON_props (omit_comparison ps) =
     JSON_props (map (\<lambda>p. if fst p = ''comparison'' then (fst p, JUndefined) else p) ps)"
proof (induction ps)
  case Nil
  show ?case by (simp add: omit_comparison_def)
next
  case (Cons a ps)
  then show ?case
    by (cases "JSON_value (snd a)") (simp_all add: omit_comparison_def)
qed

lemma comparison_undefined:
  "map (\<lambda>p. if fst p = ''comparison'' then (fst p, JUndefined) else p)
       (AggregatedCoverageResults_props r) =
     AggregatedCoverageResults_props (r\<lparr> agg_comparison := None \<rparr>)"
  by (simp add: AggregatedCoverageResults_props_def opt_val_def)

lemma omit_comparison_coverage:
  "JSON_props (omit_comparison (AggregatedCoverageResults_props r)) =
     JSON_props (AggregatedCoverageResults_props (r\<lparr> agg_comparison := None \<rparr>))"
  by (simp only: omit_is_undefined comparison_undefined)

lemma writeAndUpload_events:
  "case mkdtempSync w (path_join (tmpdir w) dirPrefix) of
     Inl e \<Rightarrow> fst (writeAndUpload w artifactName dirPrefix fileName label results) = []
   | Inr d \<Rightarrow>
       (\<exists>rest. fst (writeAndUpload w artifactName dirPrefix fileName label results) =
          WriteJSON (path_join d fileName) (JObject (JSON_props (omit_comparison results))) # rest
        \<and> (\<forall>p v. WriteJSON p v \<notin> set rest))"
proof (cases "mkdtempSync w (path_join (tmpdir w) dirPrefix)")
  case (Inl e)
  then show ?thesis by (simp add: writeAndUpload_def outcome_def)
next
  case (Inr d)
  note dir = this
  show ?thesis
  proof (cases "writeFileSync w (path_join d fileName)")
    case (Some e)
    then show ?thesis using dir by (simp add: writeAndUpload_def outcome_def call_def Let_def)
  next
    case None
    show ?thesis
    proof (cases "uploadArtifact w artifactName [path_join d fileName] d")
      case (Inl e)
      then show ?thesis
        using dir None by (simp add: writeAndUpload_def outcome_def call_def Let_def)
    next
      case (Inr i)
      then show ?thesis
        using dir None
        by (cases "unlinkSync w (path_join d fileName)"; cases "rmdirSync w d")
           (simp_all add: writeAndUpload_def outcome_def call_def Let_def attempt_def)
    qed
  qed
qed

lemma JSON_props_filter_keys:
  "JSON_props (filter (\<lambda>p. P (fst p)) ps) = filter (\<lambda>p. P (fst p)) (JSON_props ps)"
proof (induction ps)
  case Nil
  show ?case by simp
next
  case (Cons a ps)
  then show ?case by (cases "JSON_value (snd a)") simp_all
qed

lemma payload_is_filtered:
  "JSON_props (omit_comparison ps) = filter (\<lambda>p. fst p \<noteq> ''comparison'') (JSON_props ps)"
  unfolding omit_comparison_def
  by (rule JSON_props_filter_keys [of "\<lambda>k. k \<noteq> ''comparison''"])

lemma catch_warning_events:
  "\<exists>post. fst (catch body (\<lambda>error. emit (Warning (f error)))) = fst body @ post
      \<and> (\<forall>p v. WriteJSON p v \<notin> set post)"
  by (cases "snd body") (simp_all add: catch_def emit_def)

lemma uploadCoverageResults_body_events:
  "\<exists>pre. fst (uploadCoverageResults_body w cov branchName flags name) =
       pre @ fst (writeAndUpload w (getArtifactName w branchName Coverage flags name)
                    ''codecov-coverage-'' ''coverage-results.json'' ''Coverage''
                    (AggregatedCoverageResults_props cov))
     \<and> (\<forall>p v. WriteJSON p v \<notin> set pre)"
proof (cases "has_flags flags")
  case True
  then obtain fs where "flags = Some fs" "fs \<noteq> []"
    by (auto simp: has_flags_def split: option.splits)
  then have "fst (uploadCoverageResults_body w cov branchName flags name) =
      [Info (''Uploading coverage results as artifact: ''
             @ getArtifactName w branchName Coverage flags name),
       Info (''   Flags: '' @ join '', '' fs)]
      @ fst (writeAndUpload w (getArtifactName w branchName Coverage flags name)
               ''codecov-coverage-'' ''coverage-results.json'' ''Coverage''
               (AggregatedCoverageResults_props cov))"
    by (simp add: uploadCoverageResults_body_def Let_def)
  then show ?thesis by (metis event.distinct(9) empty_iff empty_set set_ConsD)
next
  case False
  then have "fst (uploadCoverageResults_body w cov branchName flags name) =
      [Info (''Uploading coverage results as artifact: ''
             @ getArtifactName w branchName Coverage flags name)]
      @ fst (writeAndUpload w (getArtifactName w branchName Coverage flags name)
               ''codecov-coverage-'' ''coverage-results.json'' ''Coverage''
               (AggregatedCoverageResults_props cov))"
    by (auto simp: uploadCoverageResults_body_def Let_def has_flags_def split: option.splits)
  then show ?thesis by (metis event.distinct(9) empty_iff empty_set set_ConsD)
qed

lemma uploadResults_body_events:
  "fst (uploadResults_body w results branchName name) =
     Info (''Uploading test results as artifact: '' @ getArtifactName w branchName Test None name)
     # fst (writeAndUpload w (getArtifactName w branchName Test None name)
              ''codecov-test-'' ''test-results.json'' ''Test'' results)"
  by (simp add: uploadResults_body_def Let_def)

lemma writeAndUpload_payload:
  assumes "WriteJSON p v \<in> set (fst (writeAndUpload w artifactName dirPrefix fileName label results))"
  shows "v = JObject (JSON_props (omit_comparison results))"
  using assms writeAndUpload_events [where w = w and dirPrefix = dirPrefix and artifactName = artifactName
      and fileName = fileName and label = label and results = results]
  by (cases "mkdtempSync w (path_join (tmpdir w) dirPrefix)") auto

lemma writeAndUpload_writes:
  assumes "mkdtempSync w (path_join (tmpdir w) dirPrefix) = Inr d"
  shows "WriteJSON (path_join d fileName) (JObject (JSON_props (omit_comparison results)))
           \<in> set (fst (writeAndUpload w artifactName dirPrefix fileName label results))"
  using assms writeAndUpload_events [where w = w and dirPrefix = dirPrefix and artifactName = artifactName
      and fileName = fileName and label = label and results = results]
  by auto

lemma uploadCoverageResults_payload:
  assumes "WriteJSON p v \<in> set (fst (uploadCoverageResults w cov branchName flags name))"
  shows "v = JObject (JSON_props (omit_comparison (AggregatedCoverageResults_props cov)))"
proof -
  obtain pre post where
    "fst (uploadCoverageResults w cov branchName flags name) =
       (pre @ fst (writeAndUpload w (getArtifactName w branchName Coverage flags name)
                    ''codecov-coverage-'' ''coverage-results.json'' ''Coverage''
                    (AggregatedCoverageResults_props cov))) @ post"
    and "\<forall>p v. WriteJSON p v \<notin> set pre" "\<forall>p v. WriteJSON p v \<notin> set post"
    using uploadCoverageResults_body_events [of w cov branchName flags name]
      catch_warning_events [of "uploadCoverageResults_body w cov branchName flags name"]
    unfolding uploadCoverageResults_def by metis
  with assms show ?thesis using writeAndUpload_payload by fastforce
qed

lemma uploadResults_payload:
  assumes "WriteJSON p v \<in> set (fst (uploadResults w results branchName name))"
  shows "v = JObject (JSON_props (omit_comparison results))"
proof -
  obtain post where
    "fst (uploadResults w results branchName name) =
       fst (uploadResults_body w results branchName name) @ post"
    and "\<forall>p v. WriteJSON p v \<notin> set post"
    using catch_warning_events [of "uploadResults_body w results branchName name"]
    unfolding uploadResults_def by metis
  with assms show ?thesis
    using writeAndUpload_payload unfolding uploadResults_body_events by fastforce
qed

lemma uploadCoverageResults_writes:
  assumes "mkdtempSync w (path_join (tmpdir w) ''codecov-coverage-'') = Inr d"
  shows "WriteJSON (path_join d ''coverage-results.json'')
           (JObject (JSON_props (omit_comparison (AggregatedCoverageResults_props cov))))
           \<in> set (fst (uploadCoverageResults w cov branchName flags name))"
proof -
  obtain pre post where
    "fst (uploadCoverageResults w cov branchName flags name) =
       (pre @ fst (writeAndUpload w (getArtifactName w branchName Coverage flags name)
                    ''codecov-coverage-'' ''coverage-results.json'' ''Coverage''
                    (AggregatedCoverageResults_props cov))) @ post"
    using uploadCoverageResults_body_events [of w cov branchName flags name]
      catch_warning_events [of "uploadCoverageResults_body w cov branchName flags name"]
    unfolding uploadCoverageResults_def by metis
  then show ?thesis using writeAndUpload_writes [OF assms] by simp
qed

lemma uploadResults_writes:
  assumes "mkdtempSync w (path_join (tmpdir w) ''codecov-test-'') = Inr d"
  shows "WriteJSON (path_join d ''test-results.json'')
           (JObject (JSON_props (omit_comparison results)))
           \<in> set (fst (uploadResults w results branchName name))"
proof -
  obtain post where
    "fst (uploadResults w results branchName name) =
       fst (uploadResults_body w results branchName name) @ post"
    using catch_warning_events [of "uploadResults_body w results branchName name"]
    unfolding uploadResults_def by metis
  then show ?thesis
    using writeAndUpload_writes [OF assms] unfolding uploadResults_body_events by simp
qed

text \<open>
  C9. Whatever \<^verbatim>\<open>uploadResults\<close> and \<^verbatim>\<open>uploadCoverageResults\<close> write as JSON is the
  serialization of the results object without its \<^verbatim>\<open>comparison\<close> property, and they write
  it as soon as the temporary directory exists. That payload is the serialization of the whole
  object with the \<^verbatim>\<open>comparison\<close> member deleted: it has no such member, and every other
  member is the one the whole object serializes to. For a coverage summary it is the
  serialization of the same summary with no comparison set, so the summary read back from the
  artifact has none.
\<close>

theorem persisted_payload_omits_comparison:
  "(\<forall>p v. WriteJSON p v \<in> set (fst (uploadResults w results branchName name)) \<longrightarrow>
       v = JObject (JSON_props (omit_comparison results)))
   \<and> (\<forall>p v. WriteJSON p v \<in> set (fst (uploadCoverageResults w cov branchName flags name)) \<longrightarrow>
       v = JObject (JSON_props (omit_comparison (AggregatedCoverageResults_props cov))))
   \<and> (mkdtempSync w (path_join (tmpdir w) ''codecov-test-'') = Inr d \<longrightarrow>
        WriteJSON (path_join d ''test-results.json'')
          (JObject (JSON_props (omit_comparison results)))
          \<in> set (fst (uploadResults w results branchName name)))
   \<and> (mkdtempSync w (path_join (tmpdir w) ''codecov-coverage-'') = Inr d \<longrightarrow>
        WriteJSON (path_join d ''coverage-results.json'')
          (JObject (JSON_props (omit_comparison (AggregatedCoverageResults_props cov))))
          \<in> set (fst (uploadCoverageResults w cov branchName flags name)))
   \<and> JSON_props (omit_comparison ps) = filter (\<lambda>p. fst p \<noteq> ''comparison'') (JSON_props ps)
   \<and> prop_get (JSON_props (omit_comparison ps)) ''comparison'' = None
   \<and> (k \<noteq> ''comparison'' \<longrightarrow>
        prop_get (JSON_props (omit_comparison ps)) k = prop_get (JSON_props ps) k)
   \<and> JSON_props (omit_comparison (AggregatedCoverageResults_props cov)) =
       JSON_props (AggregatedCoverageResults_props (cov\<lparr> agg_comparison := None \<rparr>))"
proof (intro conjI allI impI)
  fix p v
  show "v = JObject (JSON_props (omit_comparison results))"
    if "WriteJSON p v \<in> set (fst (uploadResults w results branchName name))"
    using that by (rule uploadResults_payload)
  show "v = JObject (JSON_props (omit_comparison (AggregatedCoverageResults_props cov)))"
    if "WriteJSON p v \<in> set (fst (uploadCoverageResults w cov branchName flags name))"
    using that by (rule uploadCoverageResults_payload)
next
  show "WriteJSON (path_join d ''test-results.json'')
          (JObject (JSON_props (omit_comparison results)))
          \<in> set (fst (uploadResults w results branchName name))"
    if "mkdtempSync w (path_join (tmpdir w) ''codecov-test-'') = Inr d"
    using that by (rule uploadResults_writes)
  show "WriteJSON (path_join d ''coverage-results.json'')
          (JObject (JSON_props (omit_comparison (AggregatedCoverageResults_props cov))))
          \<in> set (fst (uploadCoverageResults w cov branchName flags name))"
    if "mkdtempSync w (path_join (tmpdir w) ''codecov-coverage-'') = Inr d"
    using that by (rule uploadCoverageResults_writes)
  show "JSON_props (omit_comparison ps) = filter (\<lambda>p. fst p \<noteq> ''comparison'') (JSON_props ps)"
    by (rule payload_is_filtered)
  show "prop_get (JSON_props (omit_comparison ps)) ''comparison'' = None"
    by (rule payload_without_comparison)
  show "prop_get (JSON_props (omit_comparison ps)) k = prop_get (JSON_props ps) k"
    if "k \<noteq> ''comparison''"
    using that by (rule payload_other_fields)
  show "JSON_props (omit_comparison (AggregatedCoverageResults_props cov)) =
       JSON_props (AggregatedCoverageResults_props (cov\<lparr> agg_comparison := None \<rparr>))"
    by (rule omit_comparison_coverage)
qed


theorem persisted_payload_omits_comparison_witness:
  "mkdtempSync (quiet_world :: AggregatedCoverageResults world)
       (path_join (tmpdir (quiet_world :: AggregatedCoverageResults world)) ''codecov-test-'')
     = Inr ''/tmp/codecov-test-XXXXXX''
   \<and> prop_get sample_test_results ''comparison'' \<noteq> None
   \<and> WriteJSON ''/tmp/codecov-test-XXXXXX/test-results.json''
         (JObject [(''totalTests'', JNumber (Num 3)), (''passedTests'', JNumber (Num 2)),
                   (''passRate'', JNumber (Num (6667 / 100)))])
       \<in> set (fst (uploadResults (quiet_world :: AggregatedCoverageResults world)
                       sample_test_results ''main'' None))
   \<and> prop_get (JSON_props (omit_comparison sample_test_results)) ''passRate''
       = Some (JNumber (Num (6667 / 100)))
   \<and> WriteJSON ''/tmp/codecov-coverage-XXXXXX/coverage-results.json''
         (JObject (JSON_props (AggregatedCoverageResults_props sample_current)))
       \<in> set (fst (uploadCoverageResults (quiet_world :: AggregatedCoverageResults world)
                       (sample_current
                          \<lparr> agg_comparison :=
                              Some (compareResults sample_base sample_current None) \<rparr>)
                       ''main'' None None))"
proof -
  let ?w = "quiet_world :: AggregatedCoverageResults world"
  let ?cov = "sample_current
                \<lparr> agg_comparison := Some (compareResults sample_base sample_current None) \<rparr>"
  note inst = persisted_payload_omits_comparison [where w = ?w and results = sample_test_results
      and branchName = "''main''" and name = None and cov = ?cov and flags = None
      and ps = sample_test_results and k = "''passRate''"]
  have dir: "mkdtempSync ?w (path_join (tmpdir ?w) ''codecov-test-'') = Inr ''/tmp/codecov-test-XXXXXX''"
    "mkdtempSync ?w (path_join (tmpdir ?w) ''codecov-coverage-'')
       = Inr ''/tmp/codecov-coverage-XXXXXX''"
    by (simp_all add: quiet_world_def path_join_def)
  have has: "prop_get sample_test_results ''comparison'' \<noteq> None"
    by (simp add: prop_get_def sample_test_results_def)
  have payload: "JSON_props (omit_comparison sample_test_results) =
      [(''totalTests'', JNumber (Num 3)), (''passedTests'', JNumber (Num 2)),
       (''passRate'', JNumber (Num (6667 / 100)))]"
    by (simp add: omit_comparison_def sample_test_results_def)
  have paths: "path_join ''/tmp/codecov-test-XXXXXX'' ''test-results.json''
        = ''/tmp/codecov-test-XXXXXX/test-results.json''"
    "path_join ''/tmp/codecov-coverage-XXXXXX'' ''coverage-results.json''
        = ''/tmp/codecov-coverage-XXXXXX/coverage-results.json''"
    by (simp_all add: path_join_def)
  have nocmp: "?cov \<lparr> agg_comparison := None \<rparr> = sample_current"
    by (simp add: sample_current_def summary_of_def)
  have t: "WriteJSON ''/tmp/codecov-test-XXXXXX/test-results.json''
         (JObject [(''totalTests'', JNumber (Num 3)), (''passedTests'', JNumber (Num 2)),
                   (''passRate'', JNumber (Num (6667 / 100)))])
       \<in> set (fst (uploadResults ?w sample_test_results ''main'' None))"
    using inst [where d = "''/tmp/codecov-test-XXXXXX''"] dir(1)
    unfolding payload paths by blast
  have k: "prop_get (JSON_props (omit_comparison sample_test_results)) ''passRate''
       = Some (JNumber (Num (6667 / 100)))"
  proof -
    have ne: "''passRate'' \<noteq> ''comparison''" by simp
    have "prop_get (JSON_props (omit_comparison sample_test_results)) ''passRate''
        = prop_get (JSON_props sample_test_results) ''passRate''"
      using inst [where d = "''/tmp/codecov-test-XXXXXX''"] ne by blast
    also have "\<dots> = Some (JNumber (Num (6667 / 100)))"
      by (simp add: prop_get_def sample_test_results_def)
    finally show ?thesis .
  qed
  have c: "WriteJSON ''/tmp/codecov-coverage-XXXXXX/coverage-results.json''
         (JObject (JSON_props (AggregatedCoverageResults_props sample_current)))
       \<in> set (fst (uploadCoverageResults ?w ?cov ''main'' None None))"
  proof -
    from inst [where d = "''/tmp/codecov-coverage-XXXXXX''"] dir(2)
    have "WriteJSON (path_join ''/tmp/codecov-coverage-XXXXXX'' ''coverage-results.json'')
          (JObject (JSON_props (omit_comparison (AggregatedCoverageResults_props ?cov))))
          \<in> set (fst (uploadCoverageResults ?w ?cov ''main'' None None))"
      and "JSON_props (omit_comparison (AggregatedCoverageResults_props ?cov)) =
          JSON_props (AggregatedCoverageResults_props (?cov \<lparr> agg_comparison := None \<rparr>))"
      by blast+
    then show ?thesis by (simp only: paths nocmp)
  qed
  show ?thesis using dir(1) has t k c by blast
qed

subsection \<open>Scanning the artifacts of a run\<close>







subsection \<open>Scanning the runs\<close>







subsection \<open>The download methods\<close>
























subsection \<open>Retrieval with a base commit\<close>


























end
